theory Spec2Isabelle
  imports Main "HOL-Library.While_Combinator"
begin

section \<open>The TLS virtual connection of iocore/net/SSLNetVConnection.cc\<close>

text \<open>
  The development embeds the functions of \<^verbatim>\<open>SSLNetVConnection.cc\<close> as HOL functions over
  a record of the connection's fields. What the file calls but does not define (the TLS
  library, the chain buffer, the event system, the plugin continuations) enters as a
  parameter: the record \<open>env\<close> holds the answers of those collaborators, and every
  upstream signal the code emits is appended to the connection's \<open>trace\<close>.

  Conventions:
  \<^item> \<^verbatim>\<open>int64_t\<close> quantities are byte counts bounded by buffer sizes; they are modelled
    as \<open>int\<close>.
  \<^item> \<^verbatim>\<open>ink_assert(e)\<close> is a checked assertion: where \<open>e\<close> is false the function stops with
    the fault \<open>AssertFailed\<close>. A dereference of a null pointer stops with \<open>NullDeref\<close>.
  \<^item> The numeric event codes (\<^verbatim>\<open>SSL_READ_*\<close>, \<^verbatim>\<open>SSL_HANDSHAKE_*\<close>, \<^verbatim>\<open>EVENT_*\<close>) are
    constructors of datatypes, one per family of return values.
\<close>

subsection \<open>Status and event codes\<close>

datatype ssl_error_t =
    SSL_ERROR_NONE
  | SSL_ERROR_SSL
  | SSL_ERROR_WANT_READ
  | SSL_ERROR_WANT_WRITE
  | SSL_ERROR_WANT_X509_LOOKUP
  | SSL_ERROR_SYSCALL
  | SSL_ERROR_ZERO_RETURN
  | SSL_ERROR_WANT_CONNECT
  | SSL_ERROR_WANT_ACCEPT
  | SSL_ERROR_WANT_SNI_RESOLVE

datatype ssl_read_event =
    SSL_READ_ERROR_NONE
  | SSL_READ_ERROR
  | SSL_READ_READY
  | SSL_READ_COMPLETE
  | SSL_READ_WOULD_BLOCK
  | SSL_READ_EOS
  | SSL_WRITE_WOULD_BLOCK

datatype handshake_ret =
    EVENT_DONE
  | EVENT_ERROR
  | EVENT_CONT
  | SSL_HANDSHAKE_WANT_READ
  | SSL_HANDSHAKE_WANT_WRITE
  | SSL_HANDSHAKE_WANT_ACCEPT
  | SSL_HANDSHAKE_WANT_CONNECT
  | SSL_WAIT_FOR_HOOK

datatype fault = AssertFailed | NullDeref

datatype vc_event = VC_EVENT_READ_READY | VC_EVENT_READ_COMPLETE | VC_EVENT_EOS

datatype eventio = EVENTIO_READ | EVENTIO_WRITE

datatype signal =
    ReadSignalDone vc_event
  | ReadSignalError int
  | ReadSignalAndUpdate vc_event
  | ReadReschedule
  | WriteReschedule
  | ReadDisable
  | ReadReadyListRemove
  | WriteReadyListRemove
  | ReadReadyListEnqueue
  | SuperNetReadIO
  | NetActivity
  | HookDispatch nat
  | LogError string
  | SSLWrite int
  | SuperLoadBufferAndWrite
  | AllocatorFree
  | ThreadFree

subsection \<open>Data\<close>

datatype transport = TRANSPORT_DEFAULT | TRANSPORT_SSL | TRANSPORT_BLIND_TUNNEL

datatype ssl_hook_op = TS_SSL_HOOK_OP_DEFAULT | TS_SSL_HOOK_OP_TUNNEL | TS_SSL_HOOK_OP_TERMINATE

datatype pre_accept_state = SSL_HOOKS_INIT | SSL_HOOKS_INVOKE | SSL_HOOKS_ACTIVE | SSL_HOOKS_DONE

datatype sni_state = SNI_HOOKS_INIT | SNI_HOOKS_CONTINUE | SNI_HOOKS_DONE

datatype vio_op = VIO_NONE | VIO_READ | VIO_WRITE

text \<open>
  Modelled from the spec: the chain buffer (\<^verbatim>\<open>MIOBuffer\<close>), an append-only writer over a
  linked sequence of blocks. \<open>contents\<close> are the bytes filled so far, in order;
  \<open>wblocks\<close> lists the write-available space of the blocks from \<^verbatim>\<open>first_write_block()\<close>
  on, following \<^verbatim>\<open>next\<close>.
\<close>

record miobuffer =
  contents :: "char list"
  wblocks :: "int list"

record vio =
  nbytes :: int
  ndone :: int
  op :: vio_op
  buffer :: "miobuffer option"

record net_state =
  enabled :: bool
  triggered :: bool
  vio :: vio

definition ntodo :: "vio \<Rightarrow> int" where
  "ntodo v = nbytes v - ndone v"

text \<open>
  A side of the TLS session's byte source: a socket, or a read-only memory region holding
  the bytes not yet taken by the library.
\<close>

datatype bio = FdBIO int | MemBIO "char list"

record ssl_session =
  ctx :: nat
  rbio :: bio
  wbio :: bio
  app_data :: bool
  tlsext_host_name :: "string option"
  alpn_selected :: "char list"
  next_proto_negotiated :: "char list"

text \<open>
  Modelled from the spec: the handshake replay buffers. \<^verbatim>\<open>handShakeBuffer\<close>,
  \<^verbatim>\<open>handShakeHolder\<close> and \<^verbatim>\<open>handShakeReader\<close> are allocated and released together
  (\<^verbatim>\<open>initialize_handshake_buffers\<close>, \<^verbatim>\<open>free_handshake_buffers\<close>), so they are one optional
  record: \<open>hs_bytes\<close> are the bytes read from the socket, \<open>hs_consumed\<close> how many of them
  \<^verbatim>\<open>handShakeReader\<close> has consumed. \<^verbatim>\<open>handShakeHolder\<close> is never consumed: it holds all of
  \<open>hs_bytes\<close>.
\<close>

record hs_buffers =
  hs_bytes :: "char list"
  hs_consumed :: nat

record unix_base =
  con_fd :: int
  is_transparent :: bool
  closed :: int
  from_accept_thread :: bool
  got_remote_addr :: bool
  got_local_addr :: bool
  vc_mutex :: bool
  read_vio_mutex :: bool
  write_vio_mutex :: bool
  flags :: nat
  nh_set :: bool
  sni_servername :: "string option"

text \<open>\<^verbatim>\<open>NO_FD\<close>, the descriptor of a connection without a socket.\<close>

definition NO_FD :: int where
  "NO_FD = - 1"

text \<open>
  The connection: the fields of \<^verbatim>\<open>SSLNetVConnection\<close>, the read and write states and the
  fields of its base class that the file touches (\<open>base\<close>). \<^verbatim>\<open>curHook\<close> points into the
  chain of pre-accept hooks: it is the rest of the chain from the current hook on, empty
  for the null pointer. Two fields are the model's own: \<open>ssl_calls\<close> counts the calls
  of the TLS library's read and write, so that its answers can differ from call to call,
  and \<open>trace\<close> lists, in order, the signals sent to the net handler and the
  continuation, the hooks dispatched, the errors logged and the writes handed to the
  library.
\<close>

record vc =
  ssl :: "ssl_session option"
  attributes :: transport
  sslHandshakeBeginTime :: int
  sslLastWriteTime :: int
  sslTotalBytesSent :: int
  hookOpRequested :: ssl_hook_op
  sslHandShakeComplete :: bool
  sslClientConnection :: bool
  sslClientRenegotiationAbort :: bool
  handShake :: "hs_buffers option"
  sslPreAcceptHookState :: pre_accept_state
  sslSNIHookState :: sni_state
  curHook :: "nat list"
  npnSet :: "(char list \<times> nat) list option"
  npnEndpoint :: "nat option"
  read_state :: net_state
  write_state :: net_state
  base :: unix_base
  ssl_calls :: nat
  trace :: "signal list"

definition emit :: "signal \<Rightarrow> vc \<Rightarrow> vc" where
  "emit e s = s\<lparr>trace := trace s @ [e]\<rparr>"

subsection \<open>The TLS library's read\<close>

text \<open>
  \<^verbatim>\<open>SSLReadBuffer(ssl, buf, nbytes, nread)\<close> is not defined in the file. Its answer to the
  \<open>k\<close>-th call, asked for \<open>n\<close> bytes, is a parameter: the status, the bytes it stored
  (\<^verbatim>\<open>nread\<close> is their number) and the value it leaves in \<^verbatim>\<open>errno\<close>.
\<close>

record rd_response =
  rd_status :: ssl_error_t
  rd_data :: "char list"
  rd_errno :: int

type_synonym read_engine = "nat \<Rightarrow> int \<Rightarrow> rd_response"

text \<open>The local variables of \<^verbatim>\<open>ssl_read_from_net\<close> that its loops change.\<close>

record rd_locals =
  calls :: nat
  sslErr :: ssl_error_t
  nread :: int
  event :: ssl_read_event
  ret :: int
  bytes_read :: int
  stored :: "char list"

text \<open>
  The inner loop \<^verbatim>\<open>while (block_write_avail > 0)\<close> over one block. A status other than
  \<^verbatim>\<open>SSL_ERROR_NONE\<close> sets \<^verbatim>\<open>event\<close> and leaves the loop; \<^verbatim>\<open>SSL_ERROR_NONE\<close> accumulates
  and goes round again.
\<close>

function read_block :: "read_engine \<Rightarrow> int \<Rightarrow> rd_locals \<Rightarrow> fault + rd_locals" where
  "read_block eng block_write_avail l =
     (if block_write_avail > 0 then
        (let rsp = eng (calls l) block_write_avail;
             n = int (length (rd_data rsp));
             l1 = l\<lparr>calls := Suc (calls l), sslErr := rd_status rsp, nread := n\<rparr>
         in case rd_status rsp of
              SSL_ERROR_NONE \<Rightarrow>
                (if n = 0 then Inl AssertFailed
                 else if block_write_avail - n < 0 then Inl AssertFailed
                 else read_block eng (block_write_avail - n)
                        (l1\<lparr>bytes_read := bytes_read l + n,
                            stored := stored l @ rd_data rsp\<rparr>))
            | SSL_ERROR_WANT_WRITE \<Rightarrow> Inr (l1\<lparr>event := SSL_WRITE_WOULD_BLOCK\<rparr>)
            | SSL_ERROR_WANT_READ \<Rightarrow> Inr (l1\<lparr>event := SSL_READ_WOULD_BLOCK\<rparr>)
            | SSL_ERROR_WANT_X509_LOOKUP \<Rightarrow> Inr (l1\<lparr>event := SSL_READ_WOULD_BLOCK\<rparr>)
            | SSL_ERROR_SYSCALL \<Rightarrow>
                (if n \<noteq> 0 then Inr (l1\<lparr>event := SSL_READ_ERROR, ret := rd_errno rsp\<rparr>)
                 else Inr (l1\<lparr>event := SSL_READ_EOS\<rparr>))
            | SSL_ERROR_ZERO_RETURN \<Rightarrow> Inr (l1\<lparr>event := SSL_READ_EOS\<rparr>)
            | _ \<Rightarrow> Inr (l1\<lparr>event := SSL_READ_ERROR, ret := rd_errno rsp\<rparr>))
      else Inr l)"
  by pat_completeness auto
termination
proof (relation "measure (\<lambda>(eng, a, l). nat a)")
  fix eng :: read_engine and block_write_avail :: int and l :: rd_locals
  fix rsp n l1
  assume "0 < block_write_avail" and "rsp = eng (calls l) block_write_avail"
    and "n = int (length (rd_data rsp))" and "n \<noteq> 0"
    and "\<not> block_write_avail - n < 0"
  then have "0 < n" by simp
  then show "((eng, block_write_avail - n,
                l1\<lparr>bytes_read := bytes_read l + n, stored := stored l @ rd_data rsp\<rparr>),
               eng, block_write_avail, l) \<in> measure (\<lambda>(eng, a, l). nat a)"
    using \<open>0 < block_write_avail\<close> by simp
qed simp

declare read_block.simps [simp del]

text \<open>
  The outer loop \<^verbatim>\<open>for (...; (b != 0) && (sslErr == SSL_ERROR_NONE); b = b->next)\<close> over
  the write-available space of the blocks.
\<close>

fun read_blocks :: "read_engine \<Rightarrow> int list \<Rightarrow> rd_locals \<Rightarrow> fault + rd_locals" where
  "read_blocks eng [] l = Inr l"
| "read_blocks eng (b # bs) l =
     (if sslErr l = SSL_ERROR_NONE then
        (case read_block eng b l of
           Inl f \<Rightarrow> Inl f
         | Inr l' \<Rightarrow> read_blocks eng bs l')
      else Inr l)"

text \<open>
  Modelled from the spec: \<^verbatim>\<open>MIOBuffer::fill(n)\<close> of the chain buffer, which marks the next
  \<open>n\<close> bytes of write space as filled, block after block.
\<close>

fun fill_blocks :: "int \<Rightarrow> int list \<Rightarrow> int list" where
  "fill_blocks n [] = []"
| "fill_blocks n (b # bs) =
     (if n \<le> b then (b - n) # bs else 0 # fill_blocks (n - b) bs)"

definition fill :: "int \<Rightarrow> char list \<Rightarrow> miobuffer \<Rightarrow> miobuffer" where
  "fill n bytes m = m\<lparr>contents := contents m @ bytes, wblocks := fill_blocks n (wblocks m)\<rparr>"

text \<open>
  \<^verbatim>\<open>ssl_read_from_net(sslvc, lthread, ret)\<close>: the returned event, the value left in the
  reference parameter \<^verbatim>\<open>ret\<close>, and the connection.
\<close>

definition ssl_read_from_net ::
  "read_engine \<Rightarrow> vc \<Rightarrow> int \<Rightarrow> fault + (ssl_read_event \<times> int \<times> vc)" where
  "ssl_read_from_net eng s r =
     (case buffer (vio (read_state s)) of
        None \<Rightarrow> Inl NullDeref
      | Some m \<Rightarrow>
         (case read_blocks eng (wblocks m)
                 \<lparr>calls = ssl_calls s, sslErr = SSL_ERROR_NONE, nread = 0,
                  event = SSL_READ_ERROR_NONE, ret = r, bytes_read = 0, stored = []\<rparr> of
            Inl f \<Rightarrow> Inl f
          | Inr l \<Rightarrow>
             (if bytes_read l > 0 then
                (let v = (vio (read_state s))\<lparr>buffer := Some (fill (bytes_read l) (stored l) m),
                                        ndone := ndone (vio (read_state s)) + bytes_read l\<rparr>;
                     s1 = emit NetActivity
                            (s\<lparr>read_state := (read_state s)\<lparr>vio := v\<rparr>, ssl_calls := calls l\<rparr>)
                 in if ntodo v \<le> 0 then Inr (SSL_READ_COMPLETE, bytes_read l, s1)
                    else Inr (SSL_READ_READY, bytes_read l, s1))
              else Inr (event l, ret l, s\<lparr>ssl_calls := calls l\<rparr>))))"

subsection \<open>Collaborators\<close>

datatype ssl_event = SSL_EVENT_SERVER | SSL_EVENT_CLIENT | SSL_EVENT_OTHER

datatype cert_opt = OPT_NONE | OPT_TUNNEL

datatype raw_result = RawBytes "char list" | RawErrno nat

datatype hook_id = TS_SSL_SNI_HOOK | TS_OTHER_HOOK

text \<open>
  The answers of what the file calls but does not define.
  \<^item> \<open>SSLReadBuffer\<close>, \<open>SSLWriteBuffer\<close>, \<open>SSLAccept\<close>, \<open>SSLConnect\<close>: the TLS library.
    \<open>SSLAccept\<close> runs the library's callbacks (SNI, ALPN) on the connection, so it
    returns the connection as they leave it, with its status and \<^verbatim>\<open>errno\<close>.
  \<^item> \<open>SSL_new_ok\<close>: whether \<^verbatim>\<open>SSL_new\<close> returns a session.
  \<^item> \<open>cert_lookup\<close>: \<^verbatim>\<open>lookup->find(ip)\<close>, the option of the certificate context found
    for the local address, if any.
  \<^item> \<open>pre_accept_hooks\<close>, \<open>sni_hooks\<close>: the two hook chains of \<^verbatim>\<open>ssl_hooks\<close>, in
    registration order. A pre-accept hook is the identity of its continuation; an SNI
    hook is what its plugin does to the connection when invoked.
  \<^item> \<open>socket_read\<close>: what the scatter read of \<^verbatim>\<open>read_raw_data\<close> gets from the socket.
  \<^item> the compile-time switches and \<^verbatim>\<open>is_debug_tag_set("ssl")\<close>.
  \<^item> the constants of the dynamic record sizing, the clock and \<^verbatim>\<open>EAGAIN\<close>.
\<close>

record env =
  SSLReadBuffer :: read_engine
  SSLWriteBuffer :: "nat \<Rightarrow> int \<Rightarrow> ssl_error_t \<times> int \<times> int"
  SSLAccept :: "vc \<Rightarrow> ssl_error_t \<times> int \<times> vc"
  SSLConnect :: "vc \<Rightarrow> ssl_error_t \<times> int"
  SSL_new_ok :: bool
  SSL_set_tlsext_host_name_ok :: bool
  defaultContext :: nat
  client_ctx :: nat
  cert_lookup :: "cert_opt option"
  pre_accept_hooks :: "nat list"
  sni_hooks :: "(vc \<Rightarrow> vc) list"
  socket_read :: "vc \<Rightarrow> raw_result"
  debug_ssl :: bool
  TS_USE_TLS_ALPN :: bool
  TS_USE_TLS_NPN :: bool
  TS_USE_TLS_SNI :: bool
  TS_USE_PORT :: bool
  HAVE_SSL_ERROR_WANT_SNI_RESOLVE :: bool
  lock_is_locked :: bool
  mutex_switched :: bool
  readSignalAndUpdate_cont :: bool
  ssl_maxrecord :: int
  SSL_DEF_TLS_RECORD_SIZE :: nat
  SSL_MAX_TLS_RECORD_SIZE :: nat
  SSL_DEF_TLS_RECORD_BYTE_THRESHOLD :: int
  SSL_DEF_TLS_RECORD_MSEC_THRESHOLD :: int
  ink_get_hrtime_internal :: int
  ink_hrtime_diff_msec :: "int \<Rightarrow> int \<Rightarrow> int"
  EAGAIN :: int
  super_load_buffer_and_write :: "int \<times> int \<times> int \<times> eventio set"
  err_uninit :: int

subsection \<open>Session creation\<close>

text \<open>
  Modelled from the spec: \<^verbatim>\<open>initialize_handshake_buffers\<close> allocates the empty replay
  buffer with its two readers, \<^verbatim>\<open>free_handshake_buffers\<close> releases them.
\<close>

definition initialize_handshake_buffers :: "vc \<Rightarrow> vc" where
  "initialize_handshake_buffers s = s\<lparr>handShake := Some \<lparr>hs_bytes = [], hs_consumed = 0\<rparr>\<rparr>"

definition free_handshake_buffers :: "vc \<Rightarrow> vc" where
  "free_handshake_buffers s = s\<lparr>handShake := None\<rparr>"

definition get_socket :: "vc \<Rightarrow> int" where
  "get_socket s = con_fd (base s)"

text \<open>
  \<^verbatim>\<open>make_ssl_connection(ctx, netvc)\<close>; the caller stores the returned pointer in
  \<^verbatim>\<open>netvc->ssl\<close>, which is \<open>None\<close> when \<^verbatim>\<open>SSL_new\<close> fails.
\<close>

definition make_ssl_connection :: "env \<Rightarrow> nat \<Rightarrow> vc \<Rightarrow> vc" where
  "make_ssl_connection e c s =
     (if SSL_new_ok e then
        (if sslClientConnection s then
           s\<lparr>ssl := Some \<lparr>ctx = c, rbio = FdBIO (get_socket s), wbio = FdBIO (get_socket s),
                          app_data = True, tlsext_host_name = None, alpn_selected = [], next_proto_negotiated = []\<rparr>\<rparr>
         else
           (initialize_handshake_buffers s)
             \<lparr>ssl := Some \<lparr>ctx = c, rbio = MemBIO [], wbio = FdBIO (get_socket s),
                           app_data = True, tlsext_host_name = None, alpn_selected = [], next_proto_negotiated = []\<rparr>\<rparr>)
      else s\<lparr>ssl := None\<rparr>)"

subsection \<open>Raw read into the replay buffer\<close>

text \<open>
  \<^verbatim>\<open>BIO_get_mem_data\<close> of the TLS library: the number of bytes a memory source still
  holds; a socket source holds none.
\<close>

fun BIO_get_mem_data :: "bio \<Rightarrow> int" where
  "BIO_get_mem_data (MemBIO bs) = int (length bs)"
| "BIO_get_mem_data (FdBIO fd) = 0"

text \<open>
  Modelled from the spec: the consuming reader \<^verbatim>\<open>handShakeReader\<close> of the chain buffer:
  the number of bytes it has not consumed, those bytes, and \<^verbatim>\<open>consume(n)\<close>.
\<close>

definition read_avail :: "hs_buffers \<Rightarrow> int" where
  "read_avail h = int (length (hs_bytes h)) - int (hs_consumed h)"

definition reader_bytes :: "hs_buffers \<Rightarrow> char list" where
  "reader_bytes h = drop (hs_consumed h) (hs_bytes h)"

definition consume :: "int \<Rightarrow> hs_buffers \<Rightarrow> hs_buffers" where
  "consume n h = h\<lparr>hs_consumed := hs_consumed h + nat n\<rparr>"

text \<open>
  \<^verbatim>\<open>read_raw_data()\<close>. The scatter loop over the replay buffer's blocks only talks to the
  socket: \<open>socket_read\<close> gives its net result \<^verbatim>\<open>r\<close> after the loop's summary, either the
  bytes moved or a negated \<^verbatim>\<open>errno\<close>. From \<^verbatim>\<open>if (r <= 0)\<close> on the function is as written:
  without bytes it returns \<^verbatim>\<open>r\<close> and touches nothing; otherwise it fills the buffer and
  rebinds the session's read source to the reader's region.
\<close>

definition read_raw_data :: "env \<Rightarrow> vc \<Rightarrow> fault + (int \<times> vc)" where
  "read_raw_data e s =
     (case handShake s of
        None \<Rightarrow> Inl NullDeref
      | Some h \<Rightarrow>
         (case socket_read e s of
            RawErrno n \<Rightarrow> Inr (- int n, s)
          | RawBytes bs \<Rightarrow>
             (if int (length bs) \<le> 0 then Inr (int (length bs), s)
              else
                (case ssl s of
                   None \<Rightarrow> Inl NullDeref
                 | Some ss \<Rightarrow>
                    (let h' = h\<lparr>hs_bytes := hs_bytes h @ bs\<rparr>
                     in Inr (int (length bs),
                             s\<lparr>handShake := Some h',
                               ssl := Some (ss\<lparr>rbio := MemBIO (reader_bytes h')\<rparr>)\<rparr>))))))"

subsection \<open>The handshake\<close>

text \<open>
  Modelled from the spec: \<^verbatim>\<open>findEndpoint(proto, len)\<close> of the protocol registry, a lookup
  of the selected protocol string among the registered ones.
\<close>

definition findEndpoint :: "(char list \<times> nat) list \<Rightarrow> char list \<Rightarrow> nat option" where
  "findEndpoint reg proto = map_of reg proto"

text \<open>
  The second half of \<^verbatim>\<open>sslServerHandShakeEvent\<close>, from the inspection of
  \<^verbatim>\<open>hookOpRequested\<close> on, reached once the pre-accept hooks are done.
\<close>

definition server_accept :: "env \<Rightarrow> vc \<Rightarrow> int \<Rightarrow> fault + (handshake_ret \<times> int \<times> vc)" where
  "server_accept e s err =
     (if hookOpRequested s = TS_SSL_HOOK_OP_TUNNEL then
        Inr (EVENT_DONE, err,
             s\<lparr>attributes := TRANSPORT_BLIND_TUNNEL, ssl := None, sslHandShakeComplete := True\<rparr>)
      else if hookOpRequested s = TS_SSL_HOOK_OP_TERMINATE then
        Inr (EVENT_DONE, err, s\<lparr>sslHandShakeComplete := True\<rparr>)
      else
        (case ssl s of
           None \<Rightarrow> Inl NullDeref
         | Some ss \<Rightarrow>
            (case (if BIO_get_mem_data (rbio ss) \<le> 0
                   then map_sum id snd (read_raw_data e s) else Inr s) of
               Inl f \<Rightarrow> Inl f
             | Inr s1 \<Rightarrow>
                (case SSLAccept e s1 of
                   (ssl_error, errno, s2) \<Rightarrow>
                    (let err' = (if ssl_error \<noteq> SSL_ERROR_NONE then errno else err) in
                     case ssl_error of
                       SSL_ERROR_NONE \<Rightarrow>
                         (case ssl s2 of
                            None \<Rightarrow> Inl NullDeref
                          | Some ss2 \<Rightarrow>
                             (let s3 = s2\<lparr>sslHandShakeComplete := True,
                                         sslHandshakeBeginTime := 0\<rparr>;
                                  proto0 = (if TS_USE_TLS_ALPN e then alpn_selected ss2 else []);
                                  proto = (if TS_USE_TLS_NPN e \<and> length proto0 = 0
                                           then next_proto_negotiated ss2 else proto0)
                              in if length proto \<noteq> 0 then
                                   (case npnSet s3 of
                                      None \<Rightarrow> Inl AssertFailed
                                    | Some reg \<Rightarrow>
                                       (let s4 = s3\<lparr>npnEndpoint := findEndpoint reg proto,
                                                   npnSet := None\<rparr>
                                        in if npnEndpoint s4 = None then
                                             Inr (EVENT_ERROR, err',
                                                  emit (LogError ''failed to find registered SSL endpoint'') s4)
                                           else Inr (EVENT_DONE, err', s4)))
                                 else Inr (EVENT_DONE, err', s3)))
                     | SSL_ERROR_WANT_CONNECT \<Rightarrow> Inr (SSL_HANDSHAKE_WANT_CONNECT, err', s2)
                     | SSL_ERROR_WANT_WRITE \<Rightarrow> Inr (SSL_HANDSHAKE_WANT_WRITE, err', s2)
                     | SSL_ERROR_WANT_READ \<Rightarrow> Inr (SSL_HANDSHAKE_WANT_READ, err', s2)
                     | SSL_ERROR_WANT_SNI_RESOLVE \<Rightarrow>
                         (if HAVE_SSL_ERROR_WANT_SNI_RESOLVE e then
                            (if attributes s2 = TRANSPORT_BLIND_TUNNEL
                                \<or> hookOpRequested s2 = TS_SSL_HOOK_OP_TUNNEL
                             then Inr (EVENT_CONT, err',
                                       s2\<lparr>attributes := TRANSPORT_BLIND_TUNNEL,
                                          sslHandShakeComplete := False\<rparr>)
                             else Inr (EVENT_CONT, err', s2))
                          else Inr (EVENT_ERROR, err', s2))
                     | SSL_ERROR_WANT_ACCEPT \<Rightarrow> Inr (EVENT_CONT, err', s2)
                     | SSL_ERROR_WANT_X509_LOOKUP \<Rightarrow> Inr (EVENT_CONT, err', s2)
                     | _ \<Rightarrow> Inr (EVENT_ERROR, err', s2))))))"

text \<open>
  \<^verbatim>\<open>ContWrapper::wrap(mutex, target, eventId, edata)\<close> hands the target continuation the
  event: at once when the target's lock is free, by a scheduled \<^verbatim>\<open>ContWrapper\<close> that tries
  again otherwise. Either way the continuation gets the event once, and the trace records
  it. What the continuation then does to the connection (such as \<^verbatim>\<open>reenable\<close>) is a later
  step of the model: the caller does nothing between \<^verbatim>\<open>wrap\<close> and its return, so a
  continuation that ran inside \<^verbatim>\<open>wrap\<close> leaves the same connection as one that runs right
  after the return.
\<close>

definition wrap :: "nat \<Rightarrow> vc \<Rightarrow> vc" where
  "wrap target s = emit (HookDispatch target) s"

text \<open>
  \<^verbatim>\<open>sslServerHandShakeEvent(err)\<close>: the walk over the pre-accept hooks, one hook per
  call, then \<open>server_accept\<close>.
\<close>

definition sslServerHandShakeEvent ::
  "env \<Rightarrow> vc \<Rightarrow> int \<Rightarrow> fault + (handshake_ret \<times> int \<times> vc)" where
  "sslServerHandShakeEvent e s err =
     (if sslPreAcceptHookState s \<noteq> SSL_HOOKS_DONE then
        (case (if sslPreAcceptHookState s = SSL_HOOKS_INIT then
                 Inr (s\<lparr>curHook := pre_accept_hooks e,
                        sslPreAcceptHookState := SSL_HOOKS_INVOKE\<rparr>)
               else if sslPreAcceptHookState s = SSL_HOOKS_INVOKE then
                 (case curHook s of
                    [] \<Rightarrow> Inl NullDeref
                  | h # hs \<Rightarrow> Inr (s\<lparr>curHook := hs\<rparr>))
               else Inr s) of
           Inl f \<Rightarrow> Inl f
         | Inr s1 \<Rightarrow>
            (if sslPreAcceptHookState s1 = SSL_HOOKS_INVOKE then
               (case curHook s1 of
                  [] \<Rightarrow> server_accept e (s1\<lparr>sslPreAcceptHookState := SSL_HOOKS_DONE\<rparr>) err
                | h # hs \<Rightarrow>
                   Inr (SSL_WAIT_FOR_HOOK, err,
                        wrap h (s1\<lparr>sslPreAcceptHookState := SSL_HOOKS_ACTIVE\<rparr>)))
             else Inr (SSL_WAIT_FOR_HOOK, err, s1)))
      else server_accept e s err)"

text \<open>\<^verbatim>\<open>sslClientHandShakeEvent(err)\<close>.\<close>

definition sslClientHandShakeEvent ::
  "env \<Rightarrow> vc \<Rightarrow> int \<Rightarrow> fault + (handshake_ret \<times> int \<times> vc)" where
  "sslClientHandShakeEvent e s err =
     (case ssl s of
        None \<Rightarrow> Inl NullDeref
      | Some ss \<Rightarrow>
         (let s1 = (if TS_USE_TLS_SNI e \<and> sni_servername (base s) \<noteq> None
                       \<and> SSL_set_tlsext_host_name_ok e
                    then s\<lparr>ssl := Some (ss\<lparr>tlsext_host_name := sni_servername (base s)\<rparr>)\<rparr>
                    else s)
          in case SSLConnect e s1 of
               (ssl_error, errno) \<Rightarrow>
                 (case ssl_error of
                    SSL_ERROR_NONE \<Rightarrow>
                      (let s2 = (if debug_ssl e \<and> closed (base s1) = 0
                                    \<and> enabled (write_state s1)
                                 then emit WriteReschedule s1 else s1)
                       in Inr (EVENT_DONE, err, s2\<lparr>sslHandShakeComplete := True\<rparr>))
                  | SSL_ERROR_WANT_WRITE \<Rightarrow> Inr (SSL_HANDSHAKE_WANT_WRITE, err, s1)
                  | SSL_ERROR_WANT_READ \<Rightarrow> Inr (SSL_HANDSHAKE_WANT_READ, err, s1)
                  | SSL_ERROR_WANT_X509_LOOKUP \<Rightarrow> Inr (EVENT_CONT, err, s1)
                  | SSL_ERROR_WANT_ACCEPT \<Rightarrow> Inr (SSL_HANDSHAKE_WANT_ACCEPT, err, s1)
                  | SSL_ERROR_WANT_CONNECT \<Rightarrow> Inr (EVENT_CONT, err, s1)
                  | SSL_ERROR_ZERO_RETURN \<Rightarrow> Inr (EVENT_ERROR, err, s1)
                  | SSL_ERROR_SYSCALL \<Rightarrow> Inr (EVENT_ERROR, errno, s1)
                  | _ \<Rightarrow> Inr (EVENT_ERROR, errno, s1))))"

text \<open>\<^verbatim>\<open>sslStartHandShake(event, err)\<close>.\<close>

definition sslStartHandShake ::
  "env \<Rightarrow> ssl_event \<Rightarrow> vc \<Rightarrow> int \<Rightarrow> fault + (handshake_ret \<times> int \<times> vc)" where
  "sslStartHandShake e ev s err =
     (case ev of
        SSL_EVENT_SERVER \<Rightarrow>
          (if ssl s = None \<and> cert_lookup e = Some OPT_TUNNEL \<and> is_transparent (base s) then
             Inr (EVENT_DONE, err,
                  s\<lparr>attributes := TRANSPORT_BLIND_TUNNEL, sslHandShakeComplete := True,
                    ssl := None\<rparr>)
           else
             (let s1 = (if ssl s = None then make_ssl_connection e (defaultContext e) s else s)
              in if ssl s1 = None then
                   Inr (EVENT_ERROR, err, emit (LogError ''failed to create SSL server session'') s1)
                 else sslServerHandShakeEvent e s1 err))
      | SSL_EVENT_CLIENT \<Rightarrow>
          (let s1 = (if ssl s = None then make_ssl_connection e (client_ctx e) s else s)
           in if ssl s1 = None then
                Inr (EVENT_ERROR, err, emit (LogError ''failed to create SSL client session'') s1)
              else sslClientHandShakeEvent e s1 err)
      | SSL_EVENT_OTHER \<Rightarrow> Inl AssertFailed)"

subsection \<open>Plugin interface\<close>

text \<open>\<^verbatim>\<open>reenable(nh)\<close>.\<close>

definition reenable :: "vc \<Rightarrow> vc" where
  "reenable s =
     (if sslPreAcceptHookState s \<noteq> SSL_HOOKS_DONE then
        emit ReadReschedule (s\<lparr>sslPreAcceptHookState := SSL_HOOKS_INVOKE\<rparr>)
      else s\<lparr>sslSNIHookState := SNI_HOOKS_CONTINUE\<rparr>)"

text \<open>\<^verbatim>\<open>sslContextSet(ctx)\<close>.\<close>

definition sslContextSet :: "env \<Rightarrow> nat \<Rightarrow> vc \<Rightarrow> bool \<times> vc" where
  "sslContextSet e c s =
     (if TS_USE_TLS_SNI e then
        (case ssl s of
           Some ss \<Rightarrow> (True, s\<lparr>ssl := Some (ss\<lparr>ctx := c\<rparr>)\<rparr>)
         | None \<Rightarrow> (False, s))
      else (False, s))"

text \<open>
  The loop \<^verbatim>\<open>while (hook && reenabled)\<close> of \<^verbatim>\<open>callHooks\<close> over the rest of the chain,
  with the flag \<^verbatim>\<open>reenabled\<close>.
\<close>

fun sni_hook_loop :: "(vc \<Rightarrow> vc) list \<Rightarrow> bool \<Rightarrow> vc \<Rightarrow> bool \<times> vc" where
  "sni_hook_loop [] reenabled s = (reenabled, s)"
| "sni_hook_loop (hook # next) reenabled s =
     (if reenabled then
        (let s1 = hook (s\<lparr>sslSNIHookState := SNI_HOOKS_DONE\<rparr>);
             reenabled' = (if sslSNIHookState s1 = SNI_HOOKS_DONE then False else reenabled)
         in sni_hook_loop next reenabled' s1)
      else (reenabled, s))"

text \<open>\<^verbatim>\<open>callHooks(eventId)\<close>.\<close>

definition callHooks :: "env \<Rightarrow> hook_id \<Rightarrow> vc \<Rightarrow> fault + (bool \<times> vc)" where
  "callHooks e eventId s =
     (if eventId \<noteq> TS_SSL_SNI_HOOK then Inl AssertFailed
      else Inr (sni_hook_loop (sni_hooks e) True s))"

subsection \<open>Teardown\<close>

text \<open>
  \<^verbatim>\<open>free(t)\<close>. The last event of the trace tells which allocator took the object back.
\<close>

definition free :: "vc \<Rightarrow> fault + vc" where
  "free s =
     (if con_fd (base s) \<noteq> NO_FD then Inl AssertFailed
      else
        (let b = (base s)\<lparr>got_remote_addr := False, got_local_addr := False,
                          read_vio_mutex := False, write_vio_mutex := False,
                          vc_mutex := False, flags := 0, nh_set := False,
                          sni_servername := None, closed := 0\<rparr>;
             s1 = s\<lparr>base := b,
                    read_state := (read_state s)\<lparr>triggered := False\<rparr>,
                    write_state := (write_state s)\<lparr>triggered := False\<rparr>,
                    ssl := None,
                    sslHandShakeComplete := False,
                    sslClientConnection := False,
                    sslLastWriteTime := 0,
                    sslTotalBytesSent := 0,
                    sslClientRenegotiationAbort := False\<rparr>;
             s2 = (if sslPreAcceptHookState s1 = SSL_HOOKS_ACTIVE
                   then emit (LogError ''SSLNetVconnection freed with outstanding hook'') s1
                   else s1);
             s3 = s2\<lparr>sslPreAcceptHookState := SSL_HOOKS_INIT, curHook := [],
                     hookOpRequested := TS_SSL_HOOK_OP_DEFAULT,
                     npnSet := None, npnEndpoint := None\<rparr>
         in if from_accept_thread (base s3) then Inr (emit AllocatorFree s3)
            else Inr (emit ThreadFree s3)))"

subsection \<open>The write path\<close>

text \<open>
  The reader side of the buffer handed to \<^verbatim>\<open>load_buffer_and_write\<close>: the reader's
  \<^verbatim>\<open>start_offset\<close> and the readable bytes of its blocks, from \<^verbatim>\<open>buf.reader()->block\<close> on.
\<close>

record reader_view =
  start_offset :: int
  rblocks :: "int list"

text \<open>The local variables and reference parameters the write loop changes.\<close>

record wr_locals =
  wl_b :: "int list"
  wl_offset :: int
  wl_l :: int
  wl_r :: int
  wl_err :: ssl_error_t
  wl_errno :: int
  wl_wattempted :: int
  wl_total_written :: int
  wl_calls :: nat
  wl_ops :: "int list"

text \<open>The record cap of one write operation, given the bytes sent since idle.\<close>

definition record_cap :: "env \<Rightarrow> int \<Rightarrow> int \<Rightarrow> int" where
  "record_cap e total_sent l =
     (if ssl_maxrecord e > 0 \<and> l > ssl_maxrecord e then ssl_maxrecord e
      else if ssl_maxrecord e = - 1 then
        (let dynamic_tls_record_size =
               (if total_sent < SSL_DEF_TLS_RECORD_BYTE_THRESHOLD e
                then int (SSL_DEF_TLS_RECORD_SIZE e) else int (SSL_MAX_TLS_RECORD_SIZE e))
         in if l > dynamic_tls_record_size then dynamic_tls_record_size else l)
      else l)"

definition loop_again :: "int \<Rightarrow> wr_locals \<Rightarrow> bool" where
  "loop_again towrite w \<longleftrightarrow> wl_r w = wl_l w \<and> wl_total_written w < towrite \<and> wl_b w \<noteq> []"

function write_loop :: "env \<Rightarrow> int \<Rightarrow> int \<Rightarrow> wr_locals \<Rightarrow> fault + wr_locals" where
  "write_loop e total_sent towrite w =
     (case wl_b w of
        [] \<Rightarrow> Inl NullDeref
      | b # next \<Rightarrow>
         (let l = b - wl_offset w in
          if l \<le> 0 then
            (let w1 = w\<lparr>wl_l := l, wl_offset := - l, wl_b := next\<rparr>
             in if loop_again towrite w1 then write_loop e total_sent towrite w1 else Inr w1)
          else
            (let wavail = towrite - wl_total_written w;
                 orig_l = (if l > wavail then wavail else l);
                 l2 = record_cap e total_sent orig_l
             in if l2 = 0 then Inr (w\<lparr>wl_l := l2\<rparr>)
                else
                  (case SSLWriteBuffer e (wl_calls w) l2 of
                     (err, r, errno) \<Rightarrow>
                       (let total = wl_total_written w + l2;
                            w1 = w\<lparr>wl_l := l2, wl_r := r, wl_err := err, wl_errno := errno,
                                   wl_wattempted := (if r = l2 then total else l2),
                                   wl_total_written := total,
                                   wl_calls := Suc (wl_calls w),
                                   wl_ops := wl_ops w @ [l2]\<rparr>;
                            w2 = (if l2 = orig_l then w1\<lparr>wl_offset := 0, wl_b := next\<rparr>
                                  else w1\<lparr>wl_offset := wl_offset w + l2\<rparr>)
                        in if loop_again towrite w2 then write_loop e total_sent towrite w2
                           else Inr w2)))))"
  by pat_completeness auto
termination
  apply (relation "measures [\<lambda>(e, ts, tw, w). length (wl_b w),
                             \<lambda>(e, ts, tw, w). nat (hd (wl_b w) - wl_offset w)]")
    apply simp
   apply simp
  apply (auto simp: record_cap_def Let_def split: if_splits)
  done

declare write_loop.simps [simp del]

text \<open>
  The conversion of a 64-bit value to a 32-bit \<^verbatim>\<open>int\<close>: the low 32 bits, read as a signed
  number.
\<close>

definition narrow_int32 :: "int \<Rightarrow> int" where
  "narrow_int32 x = (x + 2147483648) mod 4294967296 - 2147483648"

text \<open>
  \<^verbatim>\<open>load_buffer_and_write(towrite, wattempted, total_written, buf, needs)\<close>: the returned
  value, the three reference parameters and the connection. Each call of
  \<^verbatim>\<open>SSLWriteBuffer\<close> is recorded in the trace with the length \<^verbatim>\<open>l\<close> it was given.
  \<^verbatim>\<open>ink_hrtime_diff_msec\<close> is not defined in the file: what it returns for the clock and
  the time of the last write is the 64-bit number of milliseconds since the last write.
  The function stores it in \<^verbatim>\<open>int msec_since_last_write\<close>, a 32-bit \<^verbatim>\<open>int\<close>, and tests
  the stored value.
\<close>

definition load_buffer_and_write ::
  "env \<Rightarrow> vc \<Rightarrow> int \<Rightarrow> int \<Rightarrow> int \<Rightarrow> reader_view \<Rightarrow> eventio set
     \<Rightarrow> fault + (int \<times> int \<times> int \<times> eventio set \<times> vc)" where
  "load_buffer_and_write e s towrite wattempted total_written buf needs =
     (let now = (if ssl_maxrecord e = - 1 then ink_get_hrtime_internal e else 0);
          msec_since_last_write =
            narrow_int32 (ink_hrtime_diff_msec e now (sslLastWriteTime s));
          s1 = (if ssl_maxrecord e = - 1
                   \<and> msec_since_last_write > SSL_DEF_TLS_RECORD_MSEC_THRESHOLD e
                then s\<lparr>sslTotalBytesSent := 0\<rparr> else s)
      in if attributes s1 = TRANSPORT_BLIND_TUNNEL then
           (case super_load_buffer_and_write e of
              (r, wa, tw, nd) \<Rightarrow> Inr (r, wa, tw, nd, emit SuperLoadBufferAndWrite s1))
         else
           (case write_loop e (sslTotalBytesSent s1) towrite
                   \<lparr>wl_b = rblocks buf, wl_offset = start_offset buf, wl_l = 0, wl_r = 0,
                    wl_err = SSL_ERROR_NONE, wl_errno = 0, wl_wattempted = wattempted,
                    wl_total_written = total_written, wl_calls = ssl_calls s1,
                    wl_ops = []\<rparr> of
              Inl f \<Rightarrow> Inl f
            | Inr w \<Rightarrow>
               (let s2 = s1\<lparr>ssl_calls := wl_calls w,
                           trace := trace s1 @ map SSLWrite (wl_ops w)\<rparr>
                in if wl_r w > 0 then
                     (let s3 = s2\<lparr>sslLastWriteTime := now,
                                 sslTotalBytesSent := sslTotalBytesSent s2 + wl_total_written w\<rparr>
                      in if wl_total_written w \<noteq> wl_wattempted w then
                           Inr (wl_r w, wl_wattempted w, wl_total_written w,
                                needs \<union> {EVENTIO_WRITE}, s3)
                         else Inr (wl_total_written w, wl_wattempted w, wl_total_written w,
                                   needs, s3))
                   else
                     (case wl_err w of
                        SSL_ERROR_NONE \<Rightarrow>
                          Inr (wl_r w, wl_wattempted w, wl_total_written w, needs, s2)
                      | SSL_ERROR_WANT_READ \<Rightarrow>
                          Inr (- EAGAIN e, wl_wattempted w, wl_total_written w,
                               needs \<union> {EVENTIO_READ}, s2)
                      | SSL_ERROR_WANT_WRITE \<Rightarrow>
                          Inr (- EAGAIN e, wl_wattempted w, wl_total_written w,
                               needs \<union> {EVENTIO_WRITE}, s2)
                      | SSL_ERROR_WANT_X509_LOOKUP \<Rightarrow>
                          Inr (- EAGAIN e, wl_wattempted w, wl_total_written w,
                               needs \<union> {EVENTIO_WRITE}, s2)
                      | _ \<Rightarrow>
                          Inr (- wl_errno w, wl_wattempted w, wl_total_written w, needs, s2)))))"

subsection \<open>The read path\<close>

text \<open>
  The loop \<^verbatim>\<open>do { ... } while (...)\<close> of \<^verbatim>\<open>net_read_io\<close> around \<^verbatim>\<open>ssl_read_from_net\<close>. The
  loop can go on for ever, so it is a \<open>while_option\<close>: \<open>None\<close> is the run that never
  leaves it. \<open>lp_iters\<close> counts the executions of the body.
\<close>

record rd_loop =
  lp_ret :: ssl_read_event
  lp_r :: int
  lp_bytes :: int
  lp_fault :: "fault option"
  lp_iters :: nat
  lp_vc :: vc

definition read_loop_body :: "env \<Rightarrow> rd_loop \<Rightarrow> rd_loop" where
  "read_loop_body e lp =
     (case ssl_read_from_net (SSLReadBuffer e) (lp_vc lp) (lp_r lp) of
        Inl f \<Rightarrow> lp\<lparr>lp_fault := Some f, lp_iters := Suc (lp_iters lp)\<rparr>
      | Inr (ev, r, s) \<Rightarrow>
         (let bytes = (if ev = SSL_READ_READY \<or> ev = SSL_READ_ERROR_NONE
                       then lp_bytes lp + r else lp_bytes lp)
          in lp\<lparr>lp_ret := ev, lp_r := r, lp_bytes := bytes,
                lp_fault := (if bytes \<ge> 0 then None else Some AssertFailed),
                lp_iters := Suc (lp_iters lp), lp_vc := s\<rparr>))"

definition read_loop_cond :: "rd_loop \<Rightarrow> bool" where
  "read_loop_cond lp \<longleftrightarrow>
     lp_fault lp = None \<and>
     ((lp_ret lp = SSL_READ_READY \<and> lp_bytes lp = 0) \<or> lp_ret lp = SSL_READ_ERROR_NONE)"

definition read_do_while :: "env \<Rightarrow> vc \<Rightarrow> rd_loop option" where
  "read_do_while e s =
     while_option read_loop_cond (read_loop_body e)
       (read_loop_body e
          \<lparr>lp_ret = SSL_READ_ERROR_NONE, lp_r = 0, lp_bytes = 0, lp_fault = None,
           lp_iters = 0, lp_vc = s\<rparr>)"

definition set_read_triggered :: "bool \<Rightarrow> vc \<Rightarrow> vc" where
  "set_read_triggered b s = s\<lparr>read_state := (read_state s)\<lparr>triggered := b\<rparr>\<rparr>"

definition set_write_triggered :: "bool \<Rightarrow> vc \<Rightarrow> vc" where
  "set_write_triggered b s = s\<lparr>write_state := (write_state s)\<lparr>triggered := b\<rparr>\<rparr>"

text \<open>
  Modelled from the spec: \<^verbatim>\<open>MIOBuffer::write(IOBufferReader *)\<close> of the chain buffer copies
  every byte the reader holds into the buffer and returns their number. The reader is
  \<^verbatim>\<open>handShakeHolder\<close>, which holds everything read into the replay buffer.
\<close>

definition write_holder :: "hs_buffers \<Rightarrow> miobuffer \<Rightarrow> int \<times> miobuffer" where
  "write_holder h m = (int (length (hs_bytes h)), m\<lparr>contents := contents m @ hs_bytes h\<rparr>)"

text \<open>
  The end of the handshake branch of \<^verbatim>\<open>net_read_io\<close>: what the result \<^verbatim>\<open>ret\<close> of
  \<^verbatim>\<open>sslStartHandShake\<close> asks of the net handler.
\<close>

definition handshake_dispatch :: "handshake_ret \<Rightarrow> int \<Rightarrow> int \<Rightarrow> vc \<Rightarrow> vc" where
  "handshake_dispatch r err ntodo0 s =
     (case r of
        EVENT_ERROR \<Rightarrow> emit (ReadSignalError err) (set_read_triggered False s)
      | SSL_HANDSHAKE_WANT_READ \<Rightarrow>
          emit ReadReschedule (emit ReadReadyListRemove (set_read_triggered False s))
      | SSL_HANDSHAKE_WANT_ACCEPT \<Rightarrow>
          emit ReadReschedule (emit ReadReadyListRemove (set_read_triggered False s))
      | SSL_HANDSHAKE_WANT_CONNECT \<Rightarrow>
          emit WriteReschedule (emit WriteReadyListRemove (set_write_triggered False s))
      | SSL_HANDSHAKE_WANT_WRITE \<Rightarrow>
          emit WriteReschedule (emit WriteReadyListRemove (set_write_triggered False s))
      | EVENT_DONE \<Rightarrow>
          (if ntodo0 \<le> 0 then emit (ReadSignalDone VC_EVENT_READ_COMPLETE) s
           else (if enabled (read_state s)
                 then emit ReadReadyListEnqueue (set_read_triggered True s)
                 else set_read_triggered True s))
      | SSL_WAIT_FOR_HOOK \<Rightarrow> s
      | EVENT_CONT \<Rightarrow> emit ReadReschedule s)"

text \<open>
  The handshake branch of \<^verbatim>\<open>net_read_io\<close>, entered while the handshake is not complete.
\<close>

definition net_read_io_handshake :: "env \<Rightarrow> int \<Rightarrow> vc \<Rightarrow> fault + vc" where
  "net_read_io_handshake e ntodo0 s =
     (case sslStartHandShake e
             (if sslClientConnection s then SSL_EVENT_CLIENT else SSL_EVENT_SERVER)
             s (err_uninit e) of
        Inl f \<Rightarrow> Inl f
      | Inr (r, err, s1) \<Rightarrow>
         (case handShake s1 of
            None \<Rightarrow> Inr (handshake_dispatch r err ntodo0 s1)
          | Some h \<Rightarrow>
             (if attributes s1 \<noteq> TRANSPORT_BLIND_TUNNEL then
                (case ssl s1 of
                   None \<Rightarrow> Inl NullDeref
                 | Some ss \<Rightarrow>
                    (let data_still_to_read = BIO_get_mem_data (rbio ss);
                         data_to_read = read_avail h;
                         s2 = s1\<lparr>handShake :=
                                   Some (consume (data_to_read - data_still_to_read) h)\<rparr>
                     in Inr (handshake_dispatch r err ntodo0 s2)))
              else
                (let s2 = emit (ReadSignalDone VC_EVENT_READ_COMPLETE) s1
                 in if \<not> sslHandShakeComplete s2 then
                      (case buffer (vio (read_state s2)) of
                         None \<Rightarrow> Inl NullDeref
                       | Some m \<Rightarrow>
                          (case write_holder h m of
                             (r, m') \<Rightarrow>
                               (let v = (vio (read_state s2))
                                          \<lparr>buffer := Some m',
                                           nbytes := nbytes (vio (read_state s2)) + r,
                                           ndone := ndone (vio (read_state s2)) + r\<rparr>;
                                    s3 = s2\<lparr>sslHandShakeComplete := True,
                                            read_state := (read_state s2)\<lparr>vio := v\<rparr>\<rparr>
                                in Inr (emit (ReadSignalDone VC_EVENT_READ_COMPLETE)
                                          (free_handshake_buffers s3)))))
                    else Inr s2))))"

text \<open>
  Modelled from the spec: \<^verbatim>\<open>MIOBuffer::write_avail()\<close> of the chain buffer, the write space
  of all its blocks.
\<close>

definition write_avail :: "miobuffer \<Rightarrow> int" where
  "write_avail m = sum_list (wblocks m)"

text \<open>
  The switch of the read source before the decrypt loop: once the replay buffer is
  drained the session reads from the socket and the buffers are released; otherwise an
  exhausted memory source is reset to the reader's region.
\<close>

definition switch_read_bio :: "vc \<Rightarrow> fault + vc" where
  "switch_read_bio s =
     (case handShake s of
        None \<Rightarrow> Inr s
      | Some h \<Rightarrow>
         (case ssl s of
            None \<Rightarrow> Inl NullDeref
          | Some ss \<Rightarrow>
             (if read_avail h \<le> 0 then
                Inr (free_handshake_buffers (s\<lparr>ssl := Some (ss\<lparr>rbio := FdBIO (get_socket s)\<rparr>)\<rparr>))
              else if BIO_get_mem_data (rbio ss) > 0 then Inr s
              else Inr (s\<lparr>ssl := Some (ss\<lparr>rbio := MemBIO (reader_bytes h)\<rparr>)\<rparr>))))"

text \<open>
  The end of \<^verbatim>\<open>net_read_io\<close>, after the decrypt loop has left \<^verbatim>\<open>ret\<close>, \<^verbatim>\<open>r\<close> and
  \<^verbatim>\<open>bytes\<close>.
\<close>

definition read_result_dispatch :: "env \<Rightarrow> ssl_read_event \<Rightarrow> int \<Rightarrow> int \<Rightarrow> vc \<Rightarrow> vc" where
  "read_result_dispatch e r rr bytes s =
     (let signal_first = (bytes > 0 \<and> (r = SSL_READ_WOULD_BLOCK \<or> r = SSL_READ_READY));
          s1 = (if signal_first then emit (ReadSignalAndUpdate VC_EVENT_READ_READY) s else s)
      in if signal_first \<and> \<not> readSignalAndUpdate_cont e then s1
         else
           (case r of
              SSL_READ_ERROR_NONE \<Rightarrow> emit ReadReschedule s1
            | SSL_READ_READY \<Rightarrow> emit ReadReschedule s1
            | SSL_WRITE_WOULD_BLOCK \<Rightarrow>
                (if mutex_switched e then emit WriteReschedule s1
                 else
                   (let s2 = emit ReadReadyListRemove (set_read_triggered False s1)
                    in if TS_USE_PORT e then emit WriteReschedule s2 else s2))
            | SSL_READ_WOULD_BLOCK \<Rightarrow>
                (if mutex_switched e then emit ReadReschedule s1
                 else
                   (let s2 = emit ReadReadyListRemove (set_read_triggered False s1)
                    in if TS_USE_PORT e then emit ReadReschedule s2 else s2))
            | SSL_READ_EOS \<Rightarrow> emit (ReadSignalDone VC_EVENT_EOS) (set_read_triggered False s1)
            | SSL_READ_COMPLETE \<Rightarrow> emit (ReadSignalDone VC_EVENT_READ_COMPLETE) s1
            | SSL_READ_ERROR \<Rightarrow> emit (ReadSignalError rr) (set_read_triggered False s1)))"

text \<open>
  \<^verbatim>\<open>net_read_io(nh, lthread)\<close>. \<open>None\<close> is the run that never leaves the decrypt loop.
\<close>

definition net_read_io :: "env \<Rightarrow> vc \<Rightarrow> (fault + vc) option" where
  "net_read_io e s =
     (let ntodo0 = ntodo (vio (read_state s)) in
      if attributes s = TRANSPORT_BLIND_TUNNEL then Some (Inr (emit SuperNetReadIO s))
      else if sslClientRenegotiationAbort s then
        Some (Inr (emit (ReadSignalError 0) (set_read_triggered False s)))
      else if \<not> lock_is_locked e then Some (Inr (emit ReadReschedule s))
      else if \<not> enabled (read_state s) \<or> op (vio (read_state s)) \<noteq> VIO_READ then
        Some (Inr (emit ReadDisable s))
      else
        (case buffer (vio (read_state s)) of
           None \<Rightarrow> Some (Inl AssertFailed)
         | Some m \<Rightarrow>
            (if \<not> sslHandShakeComplete s then Some (net_read_io_handshake e ntodo0 s)
             else if ntodo0 \<le> 0 \<or> write_avail m = 0 then Some (Inr (emit ReadDisable s))
             else
               (case switch_read_bio s of
                  Inl f \<Rightarrow> Some (Inl f)
                | Inr s1 \<Rightarrow>
                   (case read_do_while e s1 of
                      None \<Rightarrow> None
                    | Some lp \<Rightarrow>
                       (case lp_fault lp of
                          Some f \<Rightarrow> Some (Inl f)
                        | None \<Rightarrow>
                           Some (Inr (read_result_dispatch e (lp_ret lp) (lp_r lp)
                                        (lp_bytes lp) (lp_vc lp)))))))))"

subsection \<open>Initial and example connections\<close>

text \<open>
  \<open>vc_new\<close> is the connection as the constructor \<^verbatim>\<open>SSLNetVConnection()\<close> leaves it; the
  fields of the base class start out cleared, with no socket.
\<close>

definition vio_new :: vio where
  "vio_new = \<lparr>nbytes = 0, ndone = 0, op = VIO_NONE, buffer = None\<rparr>"

definition vc_new :: vc where
  "vc_new =
     \<lparr>ssl = None, attributes = TRANSPORT_DEFAULT, sslHandshakeBeginTime = 0,
      sslLastWriteTime = 0, sslTotalBytesSent = 0, hookOpRequested = TS_SSL_HOOK_OP_DEFAULT,
      sslHandShakeComplete = False, sslClientConnection = False,
      sslClientRenegotiationAbort = False, handShake = None,
      sslPreAcceptHookState = SSL_HOOKS_INIT, sslSNIHookState = SNI_HOOKS_INIT,
      curHook = [], npnSet = None, npnEndpoint = None,
      read_state = \<lparr>enabled = False, triggered = False, vio = vio_new\<rparr>,
      write_state = \<lparr>enabled = False, triggered = False, vio = vio_new\<rparr>,
      base = \<lparr>con_fd = NO_FD, is_transparent = False, closed = 0, from_accept_thread = False,
              got_remote_addr = False, got_local_addr = False, vc_mutex = False,
              read_vio_mutex = False, write_vio_mutex = False, flags = 0, nh_set = False,
              sni_servername = None\<rparr>,
      ssl_calls = 0, trace = []\<rparr>"

definition vc_reading :: vc where
  "vc_reading =
     vc_new\<lparr>sslHandShakeComplete := True,
            read_state := \<lparr>enabled = True, triggered = True,
              vio = \<lparr>nbytes = 100, ndone = 0, op = VIO_READ,
                     buffer = Some \<lparr>contents = [], wblocks = [0, 10]\<rparr>\<rparr>\<rparr>\<rparr>"

definition engine_status :: "ssl_error_t \<Rightarrow> read_engine" where
  "engine_status e k n = \<lparr>rd_status = e, rd_data = [], rd_errno = 5\<rparr>"

text \<open>An environment for the examples: every collaborator at rest, dynamic record sizing.\<close>

definition env0 :: env where
  "env0 =
     \<lparr>SSLReadBuffer = engine_status SSL_ERROR_WANT_READ,
      SSLWriteBuffer = (\<lambda>k n. (SSL_ERROR_NONE, n, 0)),
      SSLAccept = (\<lambda>s. (SSL_ERROR_WANT_READ, 11, s)),
      SSLConnect = (\<lambda>s. (SSL_ERROR_WANT_READ, 11)),
      SSL_new_ok = True,
      SSL_set_tlsext_host_name_ok = True,
      defaultContext = 0,
      client_ctx = 1,
      cert_lookup = None,
      pre_accept_hooks = [],
      sni_hooks = [],
      socket_read = (\<lambda>s. RawErrno 11),
      debug_ssl = False,
      TS_USE_TLS_ALPN = True,
      TS_USE_TLS_NPN = True,
      TS_USE_TLS_SNI = True,
      TS_USE_PORT = False,
      HAVE_SSL_ERROR_WANT_SNI_RESOLVE = True,
      lock_is_locked = True,
      mutex_switched = False,
      readSignalAndUpdate_cont = True,
      ssl_maxrecord = - 1,
      SSL_DEF_TLS_RECORD_SIZE = 1300,
      SSL_MAX_TLS_RECORD_SIZE = 16383,
      SSL_DEF_TLS_RECORD_BYTE_THRESHOLD = 1000000,
      SSL_DEF_TLS_RECORD_MSEC_THRESHOLD = 1000,
      ink_get_hrtime_internal = 0,
      ink_hrtime_diff_msec = (\<lambda>t1 t2. (t1 - t2) div 1000000),
      EAGAIN = 11,
      super_load_buffer_and_write = (0, 0, 0, {}),
      err_uninit = 0\<rparr>"

text \<open>A TLS library that decrypts three bytes, then has nothing more to give.\<close>

definition engine_abc :: read_engine where
  "engine_abc k n =
     (if k = 0 then \<lparr>rd_status = SSL_ERROR_NONE, rd_data = ''abc'', rd_errno = 0\<rparr>
      else \<lparr>rd_status = SSL_ERROR_WANT_READ, rd_data = [], rd_errno = 11\<rparr>)"

text \<open>
  What the loops of \<^verbatim>\<open>ssl_read_from_net\<close> keep true of their variables: the byte count is
  not negative, and once a status other than none was seen the event is set.
\<close>

definition rd_inv :: "rd_locals \<Rightarrow> bool" where
  "rd_inv l \<longleftrightarrow> 0 \<le> bytes_read l \<and>
     (sslErr l = SSL_ERROR_NONE \<or> (event l \<noteq> SSL_READ_ERROR_NONE \<and> event l \<noteq> SSL_READ_READY))"

subsection \<open>The plugin protocol of the pre-accept hooks\<close>

text \<open>
  \<open>hook_rounds e k s\<close> is \<open>k\<close> rounds of the protocol between the handshake and the
  plugins: \<^verbatim>\<open>sslServerHandShakeEvent\<close> runs, and the hook it dispatched answers with
  \<^verbatim>\<open>reenable\<close>. \<open>dispatched\<close> reads the hooks dispatched off a trace, in order.
\<close>

fun hook_rounds :: "env \<Rightarrow> nat \<Rightarrow> vc \<Rightarrow> fault + vc" where
  "hook_rounds e 0 s = Inr s"
| "hook_rounds e (Suc k) s =
     (case hook_rounds e k s of
        Inl f \<Rightarrow> Inl f
      | Inr s1 \<Rightarrow>
         (case sslServerHandShakeEvent e s1 0 of
            Inl f \<Rightarrow> Inl f
          | Inr (r, err, s2) \<Rightarrow> Inr (reenable s2)))"

fun dispatched :: "signal list \<Rightarrow> nat list" where
  "dispatched [] = []"
| "dispatched (HookDispatch h # tr) = h # dispatched tr"
| "dispatched (x # tr) = dispatched tr"

definition vc_hooked :: vc where
  "vc_hooked = vc_new\<lparr>sslPreAcceptHookState := SSL_HOOKS_ACTIVE, curHook := [7, 8]\<rparr>"

text \<open>The session \<^verbatim>\<open>make_ssl_connection\<close> creates for a server-side connection.\<close>

definition server_session :: "env \<Rightarrow> vc \<Rightarrow> ssl_session" where
  "server_session e s =
     \<lparr>ctx = defaultContext e, rbio = MemBIO [], wbio = FdBIO (get_socket s),
      app_data = True, tlsext_host_name = None, alpn_selected = [],
      next_proto_negotiated = []\<rparr>"

text \<open>
  A connection whose pre-accept hooks are done, with a session that holds handshake
  bytes and a protocol registry; and a TLS library whose accept succeeds, with both ALPN
  and NPN reporting a protocol.
\<close>

definition vc_accepting :: vc where
  "vc_accepting =
     vc_new\<lparr>sslPreAcceptHookState := SSL_HOOKS_DONE,
            handShake := Some \<lparr>hs_bytes = ''hello'', hs_consumed = 0\<rparr>,
            ssl := Some \<lparr>ctx = 0, rbio = MemBIO ''hello'', wbio = FdBIO 3, app_data = True,
                          tlsext_host_name = None, alpn_selected = [],
                          next_proto_negotiated = []\<rparr>,
            npnSet := Some [(''h2'', 2), (''http/1.1'', 1)]\<rparr>"

definition accept_both :: "vc \<Rightarrow> ssl_error_t \<times> int \<times> vc" where
  "accept_both s =
     (SSL_ERROR_NONE, 0,
      s\<lparr>ssl := Some \<lparr>ctx = 0, rbio = MemBIO [], wbio = FdBIO 3, app_data = True,
                     tlsext_host_name = None, alpn_selected = ''h2'',
                     next_proto_negotiated = ''http/1.1''\<rparr>\<rparr>)"

text \<open>A client-side connection with a socket, set up to read.\<close>

definition vc_client :: vc where
  "vc_client =
     vc_new\<lparr>sslClientConnection := True,
            base := (base vc_new)\<lparr>con_fd := 5\<rparr>,
            read_state := \<lparr>enabled = True, triggered = True,
              vio = \<lparr>nbytes = 100, ndone = 0, op = VIO_READ,
                     buffer = Some \<lparr>contents = [], wblocks = [10]\<rparr>\<rparr>\<rparr>\<rparr>"

text \<open>
  Two SNI plugins: one calls \<^verbatim>\<open>reenable\<close> before it returns, the other asks for a tunnel
  and returns without it.
\<close>

definition plugin_reenables :: "vc \<Rightarrow> vc" where
  "plugin_reenables s = reenable s"

definition plugin_suspends :: "vc \<Rightarrow> vc" where
  "plugin_suspends s = s\<lparr>hookOpRequested := TS_SSL_HOOK_OP_TUNNEL\<rparr>"

definition vc_sni :: vc where
  "vc_sni = vc_new\<lparr>sslPreAcceptHookState := SSL_HOOKS_DONE\<rparr>"

text \<open>One invocation of an SNI hook, after the reset of the SNI state.\<close>

definition invoke_hook :: "(vc \<Rightarrow> vc) \<Rightarrow> vc \<Rightarrow> vc" where
  "invoke_hook hook s = hook (s\<lparr>sslSNIHookState := SNI_HOOKS_DONE\<rparr>)"

text \<open>
  \<open>all_reenable hooks s\<close>: walking \<open>hooks\<close> from \<open>s\<close>, every hook leaves the SNI state
  other than done, that is, every hook re-enables.
\<close>

fun all_reenable :: "(vc \<Rightarrow> vc) list \<Rightarrow> vc \<Rightarrow> bool" where
  "all_reenable [] s = True"
| "all_reenable (g # gs) s =
     (sslSNIHookState (invoke_hook g s) \<noteq> SNI_HOOKS_DONE \<and> all_reenable gs (invoke_hook g s))"

text \<open>
  A connection that has sent two million bytes since it was last idle, and a clock five
  seconds after its last write.
\<close>

definition vc_writing :: vc where
  "vc_writing = vc_new\<lparr>sslHandShakeComplete := True, sslTotalBytesSent := 2000000\<rparr>"

definition env_later :: env where
  "env_later = env0\<lparr>ink_get_hrtime_internal := 5000000000\<rparr>"

text \<open>
  A server-side connection set up to read, a socket that delivers a client hello, and a
  TLS library whose accept stops in the SNI callback after a hook asked for a tunnel.
\<close>

definition vc_server :: vc where
  "vc_server =
     vc_new\<lparr>read_state := \<lparr>enabled = True, triggered = True,
              vio = \<lparr>nbytes = 100, ndone = 0, op = VIO_READ,
                     buffer = Some \<lparr>contents = [], wblocks = [10]\<rparr>\<rparr>\<rparr>\<rparr>"

definition accept_tunnel :: "vc \<Rightarrow> ssl_error_t \<times> int \<times> vc" where
  "accept_tunnel s =
     (SSL_ERROR_WANT_SNI_RESOLVE, 0, s\<lparr>hookOpRequested := TS_SSL_HOOK_OP_TUNNEL\<rparr>)"

definition env_sni_tunnel :: env where
  "env_sni_tunnel = env0\<lparr>SSLAccept := accept_tunnel, socket_read := (\<lambda>s. RawBytes ''hello'')\<rparr>"

text \<open>
  A connection that wrote two million bytes, the last of them one second after the
  clock's origin, and a clock \<open>2^31 + 1000\<close> milliseconds (close to 25 days) later.
\<close>

definition vc_idle_long :: vc where
  "vc_idle_long =
     vc_new\<lparr>sslHandShakeComplete := True, sslTotalBytesSent := 2000000,
            sslLastWriteTime := 1000000000\<rparr>"

definition env_idle_long :: env where
  "env_idle_long = env0\<lparr>ink_get_hrtime_internal := 2147485648000000\<rparr>"

text \<open>
  A TLS library whose accept takes the client hello, runs an SNI hook that asks for a
  tunnel and re-enables, and goes on with the handshake: it wants more to read. After
  the first read event of \<open>vc_server\<close> with it the connection is \<open>vc_hello_buffered\<close>.
\<close>

definition accept_sets_tunnel :: "vc \<Rightarrow> ssl_error_t \<times> int \<times> vc" where
  "accept_sets_tunnel s =
     (SSL_ERROR_WANT_READ, 11,
      s\<lparr>hookOpRequested := TS_SSL_HOOK_OP_TUNNEL,
        ssl := map_option (rbio_update (\<lambda>b. MemBIO [])) (ssl s)\<rparr>)"

definition env_sni_late :: env where
  "env_sni_late = env0\<lparr>SSLAccept := accept_sets_tunnel, socket_read := (\<lambda>s. RawBytes ''hello'')\<rparr>"

definition vc_hello_buffered :: vc where
  "vc_hello_buffered =
     vc_server\<lparr>handShake := Some \<lparr>hs_bytes = ''hello'', hs_consumed = 5\<rparr>,
               ssl := Some ((server_session env_sni_late vc_server)\<lparr>rbio := MemBIO []\<rparr>),
               curHook := [], sslPreAcceptHookState := SSL_HOOKS_DONE,
               hookOpRequested := TS_SSL_HOOK_OP_TUNNEL,
               read_state := (read_state vc_server)\<lparr>triggered := False\<rparr>,
               trace := [ReadReadyListRemove, ReadReschedule]\<rparr>"

text \<open>The connection after the second read event.\<close>

definition vc_promoted :: vc where
  "vc_promoted =
     vc_hello_buffered\<lparr>attributes := TRANSPORT_BLIND_TUNNEL, ssl := None,
                       sslHandShakeComplete := True,
                       trace := [ReadReadyListRemove, ReadReschedule,
                                 ReadSignalDone VC_EVENT_READ_COMPLETE]\<rparr>"

section \<open>Properties\<close>

subsection \<open>The decrypt loops\<close>

lemma read_block_nonpos: "b \<le> 0 \<Longrightarrow> read_block eng b l = Inr l"
  by (subst read_block.simps) simp

lemma read_blocks_skip:
  "sslErr l = SSL_ERROR_NONE \<Longrightarrow> filter (\<lambda>a. 0 < a) bs = [] \<Longrightarrow> read_blocks eng bs l = Inr l"
  by (induction bs) (auto simp: read_block_nonpos split: if_splits)

lemma read_blocks_stopped: "sslErr l \<noteq> SSL_ERROR_NONE \<Longrightarrow> read_blocks eng bs l = Inr l"
  by (cases bs) auto

lemma read_blocks_first:
  "sslErr l = SSL_ERROR_NONE \<Longrightarrow> filter (\<lambda>a. 0 < a) bs = a # rest \<Longrightarrow>
   \<exists>bs'. read_blocks eng bs l =
     (case read_block eng a l of Inl f \<Rightarrow> Inl f | Inr l' \<Rightarrow> read_blocks eng bs' l')"
proof (induction bs)
  case Nil
  then show ?case by simp
next
  case (Cons b bs)
  show ?case
  proof (cases "0 < b")
    case True
    with Cons.prems have "b = a" by simp
    with Cons.prems show ?thesis by auto
  next
    case False
    with Cons.prems have "filter (\<lambda>a. 0 < a) bs = a # rest" by simp
    from Cons.IH [OF Cons.prems(1) this] obtain bs' where
      "read_blocks eng bs l =
         (case read_block eng a l of Inl f \<Rightarrow> Inl f | Inr l' \<Rightarrow> read_blocks eng bs' l')" ..
    with False Cons.prems(1) show ?thesis
      by (auto simp: read_block_nonpos)
  qed
qed

lemma read_block_status:
  assumes "0 < a" and "rd_status (eng (calls l) a) \<noteq> SSL_ERROR_NONE"
  shows "\<exists>l'. read_block eng a l = Inr l' \<and> sslErr l' \<noteq> SSL_ERROR_NONE \<and> bytes_read l' = bytes_read l
     \<and> calls l' = Suc (calls l) \<and>
     (event l', ret l') = (case rd_status (eng (calls l) a) of
          SSL_ERROR_WANT_READ \<Rightarrow> (SSL_READ_WOULD_BLOCK, ret l)
        | SSL_ERROR_WANT_X509_LOOKUP \<Rightarrow> (SSL_READ_WOULD_BLOCK, ret l)
        | SSL_ERROR_WANT_WRITE \<Rightarrow> (SSL_WRITE_WOULD_BLOCK, ret l)
        | SSL_ERROR_SYSCALL \<Rightarrow> (if rd_data (eng (calls l) a) = [] then (SSL_READ_EOS, ret l) else (SSL_READ_ERROR, rd_errno (eng (calls l) a)))
        | SSL_ERROR_ZERO_RETURN \<Rightarrow> (SSL_READ_EOS, ret l)
        | _ \<Rightarrow> (SSL_READ_ERROR, rd_errno (eng (calls l) a)))"
  using assms by (subst read_block.simps) (simp add: Let_def split: ssl_error_t.splits)

text \<open>
  Claim C2, as amended. In the post-handshake read, when the first decrypt call (on the
  first block with write space) reports a status other than none, \<^verbatim>\<open>ssl_read_from_net\<close>
  returns: want-read and want-x509-lookup give read-would-block; want-write gives
  write-would-block; syscall gives eos when no byte was read and error carrying errno
  otherwise; zero-return gives eos; every other status gives error carrying errno.
\<close>

theorem ssl_read_from_net_status:
  assumes "buffer (vio (read_state s)) = Some m"
    and "filter (\<lambda>a. 0 < a) (wblocks m) = a # rest"
    and "rsp = eng (ssl_calls s) a"
    and "rd_status rsp \<noteq> SSL_ERROR_NONE"
    and "s' = s\<lparr>ssl_calls := Suc (ssl_calls s)\<rparr>"
  shows "ssl_read_from_net eng s r =
    (case rd_status rsp of
       SSL_ERROR_WANT_READ \<Rightarrow> Inr (SSL_READ_WOULD_BLOCK, r, s')
     | SSL_ERROR_WANT_X509_LOOKUP \<Rightarrow> Inr (SSL_READ_WOULD_BLOCK, r, s')
     | SSL_ERROR_WANT_WRITE \<Rightarrow> Inr (SSL_WRITE_WOULD_BLOCK, r, s')
     | SSL_ERROR_SYSCALL \<Rightarrow>
         (if rd_data rsp = [] then Inr (SSL_READ_EOS, r, s')
          else Inr (SSL_READ_ERROR, rd_errno rsp, s'))
     | SSL_ERROR_ZERO_RETURN \<Rightarrow> Inr (SSL_READ_EOS, r, s')
     | _ \<Rightarrow> Inr (SSL_READ_ERROR, rd_errno rsp, s'))"
proof -
  let ?l0 = "\<lparr>calls = ssl_calls s, sslErr = SSL_ERROR_NONE, nread = 0,
              event = SSL_READ_ERROR_NONE, ret = r, bytes_read = 0, stored = []\<rparr>"
  have st: "rd_status (eng (calls ?l0) a) \<noteq> SSL_ERROR_NONE"
    using assms(3,4) by simp
  have pos: "0 < a"
  proof -
    have "a \<in> set (filter (\<lambda>a. 0 < a) (wblocks m))" using assms(2) by simp
    then show ?thesis by simp
  qed
  from read_block_status [of a eng ?l0, OF pos st] obtain l' where
    rb: "read_block eng a ?l0 = Inr l'" and ne: "sslErr l' \<noteq> SSL_ERROR_NONE"
    and br: "bytes_read l' = 0" and cl: "calls l' = Suc (ssl_calls s)"
    and ev: "(event l', ret l') = (case rd_status rsp of
          SSL_ERROR_WANT_READ \<Rightarrow> (SSL_READ_WOULD_BLOCK, r)
        | SSL_ERROR_WANT_X509_LOOKUP \<Rightarrow> (SSL_READ_WOULD_BLOCK, r)
        | SSL_ERROR_WANT_WRITE \<Rightarrow> (SSL_WRITE_WOULD_BLOCK, r)
        | SSL_ERROR_SYSCALL \<Rightarrow> (if rd_data rsp = [] then (SSL_READ_EOS, r) else (SSL_READ_ERROR, rd_errno rsp))
        | SSL_ERROR_ZERO_RETURN \<Rightarrow> (SSL_READ_EOS, r)
        | _ \<Rightarrow> (SSL_READ_ERROR, rd_errno rsp))"
    using assms(3) by (auto cong: ssl_error_t.case_cong)
  from read_blocks_first [of ?l0 "wblocks m" a rest eng] assms(2) obtain bs' where
    "read_blocks eng (wblocks m) ?l0 =
       (case read_block eng a ?l0 of Inl f \<Rightarrow> Inl f | Inr l' \<Rightarrow> read_blocks eng bs' l')"
    by auto
  with rb ne have "read_blocks eng (wblocks m) ?l0 = Inr l'"
    by (simp add: read_blocks_stopped)
  with br cl assms(1,5) have "ssl_read_from_net eng s r = Inr (event l', ret l', s')"
    by (simp add: ssl_read_from_net_def)
  with ev show ?thesis
    by (cases "rd_status rsp") (auto split: if_splits)
qed

theorem ssl_read_from_net_status_witness:
  "ssl_read_from_net (engine_status SSL_ERROR_WANT_X509_LOOKUP) vc_reading 0 =
     Inr (SSL_READ_WOULD_BLOCK, 0, vc_reading\<lparr>ssl_calls := Suc 0\<rparr>)"
  using ssl_read_from_net_status [of vc_reading "\<lparr>contents = [], wblocks = [0, 10]\<rparr>" 10 "[]"
      "engine_status SSL_ERROR_WANT_X509_LOOKUP 0 10" "engine_status SSL_ERROR_WANT_X509_LOOKUP"
      "vc_reading\<lparr>ssl_calls := Suc 0\<rparr>" 0]
  by (simp add: vc_reading_def vc_new_def engine_status_def)

theorem x509_lookup_counterexample:
  "map_sum id fst (ssl_read_from_net (engine_status SSL_ERROR_WANT_X509_LOOKUP) vc_reading 0)
     \<noteq> Inr SSL_WRITE_WOULD_BLOCK"
  by (simp add: ssl_read_from_net_def vc_reading_def vc_new_def engine_status_def
      read_block.simps)

lemma read_block_inv:
  "read_block eng a l = Inr l' \<Longrightarrow> rd_inv l \<Longrightarrow>
   rd_inv l' \<and> bytes_read l \<le> bytes_read l' \<and>
   (0 < a \<longrightarrow> sslErr l' \<noteq> SSL_ERROR_NONE \<or> bytes_read l < bytes_read l')"
proof (induction eng a l arbitrary: l' rule: read_block.induct)
  case (1 eng a l)
  show ?case
  proof (cases "0 < a")
    case False
    with "1.prems" show ?thesis
      by (simp add: read_block_nonpos)
  next
    case True
    let ?rsp = "eng (calls l) a"
    let ?n = "int (length (rd_data ?rsp))"
    show ?thesis
    proof (cases "rd_status ?rsp = SSL_ERROR_NONE")
      case ok: True
      let ?l1 = "l\<lparr>calls := Suc (calls l), sslErr := rd_status ?rsp, nread := ?n,
                   bytes_read := bytes_read l + ?n, stored := stored l @ rd_data ?rsp\<rparr>"
      from "1.prems"(1) True ok have n0: "?n \<noteq> 0" and fit: "\<not> a - ?n < 0"
        and rec: "read_block eng (a - ?n) ?l1 = Inr l'"
        by (subst (asm) read_block.simps, simp add: Let_def split: if_splits)+
      have inv1: "rd_inv ?l1"
        using "1.prems"(2) ok by (simp add: rd_inv_def)
      from "1.IH" [OF True refl refl refl ok n0 fit rec inv1]
      have il: "rd_inv l'" and le: "bytes_read l + ?n \<le> bytes_read l'" by simp_all
      from n0 have "0 < ?n" by simp
      with le have "bytes_read l < bytes_read l'" by linarith
      with il show ?thesis by simp
    next
      case err: False
      from read_block_status [of a eng l, OF True err] "1.prems"(1)
      have "sslErr l' \<noteq> SSL_ERROR_NONE" and "bytes_read l' = bytes_read l"
        and ev: "(event l', ret l') = (case rd_status ?rsp of
          SSL_ERROR_WANT_READ \<Rightarrow> (SSL_READ_WOULD_BLOCK, ret l)
        | SSL_ERROR_WANT_X509_LOOKUP \<Rightarrow> (SSL_READ_WOULD_BLOCK, ret l)
        | SSL_ERROR_WANT_WRITE \<Rightarrow> (SSL_WRITE_WOULD_BLOCK, ret l)
        | SSL_ERROR_SYSCALL \<Rightarrow> (if rd_data ?rsp = [] then (SSL_READ_EOS, ret l) else (SSL_READ_ERROR, rd_errno ?rsp))
        | SSL_ERROR_ZERO_RETURN \<Rightarrow> (SSL_READ_EOS, ret l)
        | _ \<Rightarrow> (SSL_READ_ERROR, rd_errno ?rsp))"
        by auto
      moreover from ev have "event l' \<noteq> SSL_READ_ERROR_NONE \<and> event l' \<noteq> SSL_READ_READY"
        by (cases "rd_status ?rsp") (auto split: if_splits)
      ultimately show ?thesis
        using "1.prems"(2) by (simp add: rd_inv_def)
    qed
  qed
qed

lemma read_blocks_inv:
  "read_blocks eng bs l = Inr l' \<Longrightarrow> rd_inv l \<Longrightarrow>
   rd_inv l' \<and> bytes_read l \<le> bytes_read l' \<and>
   ((\<exists>a\<in>set bs. 0 < a) \<and> sslErr l = SSL_ERROR_NONE \<longrightarrow>
      sslErr l' \<noteq> SSL_ERROR_NONE \<or> bytes_read l < bytes_read l')"
proof (induction bs arbitrary: l)
  case Nil
  then show ?case by simp
next
  case (Cons b bs)
  show ?case
  proof (cases "sslErr l = SSL_ERROR_NONE")
    case False
    with Cons.prems show ?thesis by simp
  next
    case True
    with Cons.prems(1) obtain l1 where rb: "read_block eng b l = Inr l1"
      and rest: "read_blocks eng bs l1 = Inr l'"
      by (auto split: sum.splits)
    from read_block_inv [OF rb Cons.prems(2)]
    have i1: "rd_inv l1" and m1: "bytes_read l \<le> bytes_read l1"
      and p1: "0 < b \<longrightarrow> sslErr l1 \<noteq> SSL_ERROR_NONE \<or> bytes_read l < bytes_read l1"
      by simp_all
    from Cons.IH [OF rest i1]
    have i2: "rd_inv l'" and m2: "bytes_read l1 \<le> bytes_read l'"
      and p2: "(\<exists>a\<in>set bs. 0 < a) \<and> sslErr l1 = SSL_ERROR_NONE \<longrightarrow>
                 sslErr l' \<noteq> SSL_ERROR_NONE \<or> bytes_read l1 < bytes_read l'"
      by simp_all
    have stop: "sslErr l1 \<noteq> SSL_ERROR_NONE \<Longrightarrow> l' = l1"
      using rest by (simp add: read_blocks_stopped)
    show ?thesis
      using i2 m1 m2 p1 p2 stop by auto
  qed
qed


lemma ssl_read_from_net_progress:
  assumes "buffer (vio (read_state s)) = Some m" and "\<exists>a\<in>set (wblocks m). 0 < a"
    and "ssl_read_from_net eng s r = Inr (ev, r', s')"
  shows "ev \<noteq> SSL_READ_ERROR_NONE \<and> (ev = SSL_READ_READY \<longrightarrow> 0 < r')"
proof -
  let ?l0 = "\<lparr>calls = ssl_calls s, sslErr = SSL_ERROR_NONE, nread = 0,
              event = SSL_READ_ERROR_NONE, ret = r, bytes_read = 0, stored = []\<rparr>"
  from assms(1,3) obtain l where rb: "read_blocks eng (wblocks m) ?l0 = Inr l"
    by (auto simp: ssl_read_from_net_def split: sum.splits)
  have "rd_inv ?l0" by (simp add: rd_inv_def)
  from read_blocks_inv [OF rb this] assms(2)
  have inv: "rd_inv l" and prog: "sslErr l \<noteq> SSL_ERROR_NONE \<or> 0 < bytes_read l"
    by auto
  show ?thesis
  proof (cases "0 < bytes_read l")
    case True
    with assms(1,3) rb show ?thesis
      by (auto simp: ssl_read_from_net_def Let_def split: if_splits)
  next
    case False
    with assms(1,3) rb have "ev = event l"
      by (auto simp: ssl_read_from_net_def Let_def split: if_splits)
    with False prog inv show ?thesis
      by (auto simp: rd_inv_def)
  qed
qed

lemma read_loop_body_exits:
  assumes "buffer (vio (read_state s)) = Some m" and "\<exists>a\<in>set (wblocks m). 0 < a"
  shows "\<not> read_loop_cond (read_loop_body e
           \<lparr>lp_ret = SSL_READ_ERROR_NONE, lp_r = 0, lp_bytes = 0, lp_fault = None,
            lp_iters = 0, lp_vc = s\<rparr>)"
proof (cases "ssl_read_from_net (SSLReadBuffer e) s 0")
  case (Inl f)
  then show ?thesis
    by (simp add: read_loop_body_def read_loop_cond_def)
next
  case (Inr res)
  obtain ev r' s' where res: "res = (ev, r', s')" by (cases res)
  from ssl_read_from_net_progress [OF assms] Inr res
  have "ev \<noteq> SSL_READ_ERROR_NONE" and "ev = SSL_READ_READY \<longrightarrow> 0 < r'" by auto
  with Inr res show ?thesis
    by (auto simp: read_loop_body_def read_loop_cond_def Let_def)
qed

lemma do_while_single_run:
  assumes "buffer (vio (read_state s)) = Some m" and "\<exists>a\<in>set (wblocks m). 0 < a"
  shows "read_do_while e s = Some (read_loop_body e
           \<lparr>lp_ret = SSL_READ_ERROR_NONE, lp_r = 0, lp_bytes = 0, lp_fault = None,
            lp_iters = 0, lp_vc = s\<rparr>)"
  unfolding read_do_while_def
  by (subst while_option_unfold) (simp add: read_loop_body_exits [OF assms])

lemma read_loop_body_iters: "lp_iters (read_loop_body e lp) = Suc (lp_iters lp)"
  by (simp add: read_loop_body_def Let_def split: sum.splits prod.splits)

text \<open>
  Claim C9. In the post-handshake read path, when the read VIO has remaining demand, its
  buffer has a block with write space and every decrypt call with status none delivers
  at least one byte, the \<^verbatim>\<open>do ... while\<close> loop around \<^verbatim>\<open>ssl_read_from_net\<close> terminates and
  its body runs exactly once. (\<open>do_while_single_run\<close> gives the result of that
  one run; it needs the block with write space only.)
\<close>

theorem read_do_while_once:
  assumes "buffer (vio (read_state s)) = Some m"
    and "0 < ntodo (vio (read_state s))"
    and "\<exists>a\<in>set (wblocks m). 0 < a"
    and "\<forall>k n. rd_status (SSLReadBuffer e k n) = SSL_ERROR_NONE
               \<longrightarrow> rd_data (SSLReadBuffer e k n) \<noteq> []"
  shows "\<exists>lp. read_do_while e s = Some lp \<and> lp_iters lp = 1"
  using do_while_single_run [OF assms(1,3)]
  by (simp add: read_loop_body_iters)

theorem read_do_while_once_witness:
  "\<exists>lp. read_do_while (env0\<lparr>SSLReadBuffer := engine_abc\<rparr>) vc_reading = Some lp
        \<and> lp_iters lp = 1"
proof -
  have "buffer (vio (read_state vc_reading)) = Some \<lparr>contents = [], wblocks = [0, 10]\<rparr>"
    by (simp add: vc_reading_def)
  moreover have "0 < ntodo (vio (read_state vc_reading))"
    by (simp add: vc_reading_def ntodo_def)
  moreover have "\<exists>a\<in>set (wblocks \<lparr>contents = [], wblocks = [0, 10]\<rparr>). 0 < a"
    by simp
  moreover have "\<forall>k n. rd_status (SSLReadBuffer (env0\<lparr>SSLReadBuffer := engine_abc\<rparr>) k n)
                    = SSL_ERROR_NONE
               \<longrightarrow> rd_data (SSLReadBuffer (env0\<lparr>SSLReadBuffer := engine_abc\<rparr>) k n) \<noteq> []"
    by (simp add: engine_abc_def)
  ultimately show ?thesis
    by (rule read_do_while_once)
qed

subsection \<open>The pre-accept hooks\<close>

lemma dispatched_append: "dispatched (xs @ ys) = dispatched xs @ dispatched ys"
  by (induction xs rule: dispatched.induct) simp_all

lemma handshake_active:
  "sslPreAcceptHookState s = SSL_HOOKS_ACTIVE \<Longrightarrow>
   sslServerHandShakeEvent e s err = Inr (SSL_WAIT_FOR_HOOK, err, s)"
  by (simp add: sslServerHandShakeEvent_def wrap_def)

lemma handshake_init:
  "sslPreAcceptHookState s = SSL_HOOKS_INIT \<Longrightarrow> pre_accept_hooks e = h # hs \<Longrightarrow>
   sslServerHandShakeEvent e s err =
     Inr (SSL_WAIT_FOR_HOOK, err,
          emit (HookDispatch h) (s\<lparr>curHook := h # hs, sslPreAcceptHookState := SSL_HOOKS_ACTIVE\<rparr>))"
  by (simp add: sslServerHandShakeEvent_def wrap_def)

lemma handshake_invoke:
  "sslPreAcceptHookState s = SSL_HOOKS_INVOKE \<Longrightarrow> curHook s = h0 # h1 # hs \<Longrightarrow>
   sslServerHandShakeEvent e s err =
     Inr (SSL_WAIT_FOR_HOOK, err,
          emit (HookDispatch h1) (s\<lparr>curHook := h1 # hs, sslPreAcceptHookState := SSL_HOOKS_ACTIVE\<rparr>))"
  by (simp add: sslServerHandShakeEvent_def wrap_def)

lemma reenable_not_done:
  "sslPreAcceptHookState s \<noteq> SSL_HOOKS_DONE \<Longrightarrow>
   reenable s = emit ReadReschedule (s\<lparr>sslPreAcceptHookState := SSL_HOOKS_INVOKE\<rparr>)"
  by (simp add: reenable_def)

lemma reenable_done:
  "sslPreAcceptHookState s = SSL_HOOKS_DONE \<Longrightarrow>
   reenable s = s\<lparr>sslSNIHookState := SNI_HOOKS_CONTINUE\<rparr>"
  by (simp add: reenable_def)

lemma hook_rounds_inv:
  assumes "sslPreAcceptHookState s = SSL_HOOKS_INIT"
  shows "Suc k \<le> length (pre_accept_hooks e) \<Longrightarrow>
     \<exists>s'. hook_rounds e (Suc k) s = Inr s' \<and>
          sslPreAcceptHookState s' = SSL_HOOKS_INVOKE \<and>
          curHook s' = drop k (pre_accept_hooks e) \<and>
          dispatched (trace s') = dispatched (trace s) @ take (Suc k) (pre_accept_hooks e)"
proof (induction k)
  case 0
  then obtain h hs where hooks: "pre_accept_hooks e = h # hs"
    by (cases "pre_accept_hooks e") auto
  with assms show ?case
    by (simp add: handshake_init reenable_def emit_def dispatched_append)
next
  case (Suc k)
  then obtain s1 where r: "hook_rounds e (Suc k) s = Inr s1"
    and st: "sslPreAcceptHookState s1 = SSL_HOOKS_INVOKE"
    and cur: "curHook s1 = drop k (pre_accept_hooks e)"
    and tr: "dispatched (trace s1) = dispatched (trace s) @ take (Suc k) (pre_accept_hooks e)"
    by auto
  from Suc.prems have len: "Suc k < length (pre_accept_hooks e)" by simp
  then have d: "drop k (pre_accept_hooks e) =
      pre_accept_hooks e ! k # pre_accept_hooks e ! Suc k # drop (Suc (Suc k)) (pre_accept_hooks e)"
    by (simp add: Cons_nth_drop_Suc Suc_lessD)
  from handshake_invoke [OF st, of "pre_accept_hooks e ! k" "pre_accept_hooks e ! Suc k"
      "drop (Suc (Suc k)) (pre_accept_hooks e)" e 0] cur d
  have ev: "sslServerHandShakeEvent e s1 0 =
     Inr (SSL_WAIT_FOR_HOOK, 0,
          emit (HookDispatch (pre_accept_hooks e ! Suc k))
            (s1\<lparr>curHook := pre_accept_hooks e ! Suc k # drop (Suc (Suc k)) (pre_accept_hooks e),
                sslPreAcceptHookState := SSL_HOOKS_ACTIVE\<rparr>))"
    by simp
  have dr: "drop (Suc k) (pre_accept_hooks e) =
      pre_accept_hooks e ! Suc k # drop (Suc (Suc k)) (pre_accept_hooks e)"
    using len by (simp add: Cons_nth_drop_Suc)
  have tk: "take (Suc (Suc k)) (pre_accept_hooks e) =
      take (Suc k) (pre_accept_hooks e) @ [pre_accept_hooks e ! Suc k]"
    using len by (simp add: take_Suc_conv_app_nth)
  let ?s2 = "emit (HookDispatch (pre_accept_hooks e ! Suc k))
            (s1\<lparr>curHook := pre_accept_hooks e ! Suc k # drop (Suc (Suc k)) (pre_accept_hooks e),
                sslPreAcceptHookState := SSL_HOOKS_ACTIVE\<rparr>)"
  have step: "hook_rounds e (Suc (Suc k)) s = Inr (reenable ?s2)"
    by (subst hook_rounds.simps) (simp only: r ev sum.case prod.case)
  have "sslPreAcceptHookState (reenable ?s2) = SSL_HOOKS_INVOKE"
    by (simp add: reenable_def emit_def)
  moreover have "curHook (reenable ?s2) = drop (Suc k) (pre_accept_hooks e)"
    using dr by (simp add: reenable_def emit_def)
  moreover have "dispatched (trace (reenable ?s2)) =
      dispatched (trace s) @ take (Suc (Suc k)) (pre_accept_hooks e)"
    by (simp only: tk) (simp add: reenable_def emit_def dispatched_append tr)
  ultimately show ?case
    using step by blast
qed

lemma server_accept_not_waiting:
  "server_accept e s err = Inr (r, err', s') \<Longrightarrow> r \<noteq> SSL_WAIT_FOR_HOOK"
  by (auto simp: server_accept_def Let_def
      split: if_splits option.splits sum.splits prod.splits ssl_error_t.splits)

lemma handshake_waiting:
  assumes "sslServerHandShakeEvent e s err = Inr (SSL_WAIT_FOR_HOOK, err', s')"
  shows "sslPreAcceptHookState s' = SSL_HOOKS_ACTIVE \<and>
     (if sslPreAcceptHookState s = SSL_HOOKS_ACTIVE then s' = s
      else \<exists>h. dispatched (trace s') = dispatched (trace s) @ [h])"
proof (cases "sslPreAcceptHookState s")
  case SSL_HOOKS_INIT
  with assms show ?thesis
    by (cases "pre_accept_hooks e")
       (auto simp: sslServerHandShakeEvent_def wrap_def emit_def dispatched_append
             dest: server_accept_not_waiting)
next
  case SSL_HOOKS_INVOKE
  with assms show ?thesis
    by (cases "curHook s"; cases "tl (curHook s)")
       (auto simp: sslServerHandShakeEvent_def wrap_def emit_def dispatched_append
             dest: server_accept_not_waiting)
next
  case SSL_HOOKS_ACTIVE
  with assms show ?thesis
    by (simp add: handshake_active)
next
  case SSL_HOOKS_DONE
  with assms show ?thesis
    by (auto simp: sslServerHandShakeEvent_def wrap_def dest: server_accept_not_waiting)
qed

text \<open>
  Claim C7. At most one pre-accept hook is active at a time. While a hook is active the
  handshake returns waiting-for-hook and changes nothing; whenever it returns
  waiting-for-hook a hook is active, and a call dispatches at most one hook, only from a
  state that is not active; over the rounds of the plugin protocol the hooks are
  dispatched in chain order. \<^verbatim>\<open>reenable\<close> while the pre-accept state is not done sets it
  to invoke and reschedules a read; once it is done, \<^verbatim>\<open>reenable\<close> sets the SNI state to
  continue.
\<close>

theorem pre_accept_one_at_a_time:
  assumes "sslPreAcceptHookState sa = SSL_HOOKS_ACTIVE"
    and "sslServerHandShakeEvent e sw err = Inr (SSL_WAIT_FOR_HOOK, err', sw')"
    and "sslPreAcceptHookState si = SSL_HOOKS_INIT"
    and "k \<le> length (pre_accept_hooks e)"
    and "sslPreAcceptHookState sn \<noteq> SSL_HOOKS_DONE"
    and "sslPreAcceptHookState sd = SSL_HOOKS_DONE"
  shows "sslServerHandShakeEvent e sa err = Inr (SSL_WAIT_FOR_HOOK, err, sa)
     \<and> sslPreAcceptHookState sw' = SSL_HOOKS_ACTIVE
     \<and> (if sslPreAcceptHookState sw = SSL_HOOKS_ACTIVE then sw' = sw
         else \<exists>h. dispatched (trace sw') = dispatched (trace sw) @ [h])
     \<and> (\<exists>s'. hook_rounds e k si = Inr s'
           \<and> dispatched (trace s') = dispatched (trace si) @ take k (pre_accept_hooks e))
     \<and> reenable sn = emit ReadReschedule (sn\<lparr>sslPreAcceptHookState := SSL_HOOKS_INVOKE\<rparr>)
     \<and> reenable sd = sd\<lparr>sslSNIHookState := SNI_HOOKS_CONTINUE\<rparr>"
proof -
  have rounds: "\<exists>s'. hook_rounds e k si = Inr s'
           \<and> dispatched (trace s') = dispatched (trace si) @ take k (pre_accept_hooks e)"
  proof (cases k)
    case 0
    then show ?thesis by simp
  next
    case (Suc j)
    with hook_rounds_inv [OF assms(3), of j e] assms(4) show ?thesis by auto
  qed
  show ?thesis
    using handshake_active [OF assms(1)] handshake_waiting [OF assms(2)] rounds
      reenable_not_done [OF assms(5)] reenable_done [OF assms(6)]
    by simp
qed

theorem pre_accept_one_at_a_time_witness:
  "sslServerHandShakeEvent (env0\<lparr>pre_accept_hooks := [7, 8]\<rparr>) vc_hooked 0
     = Inr (SSL_WAIT_FOR_HOOK, 0, vc_hooked)
   \<and> sslPreAcceptHookState
       (vc_new\<lparr>curHook := [7, 8], sslPreAcceptHookState := SSL_HOOKS_ACTIVE,
               trace := [HookDispatch 7]\<rparr>) = SSL_HOOKS_ACTIVE
   \<and> (\<exists>s'. hook_rounds (env0\<lparr>pre_accept_hooks := [7, 8]\<rparr>) 2 vc_new = Inr s'
         \<and> dispatched (trace s') = [7, 8])
   \<and> reenable vc_hooked
       = emit ReadReschedule (vc_hooked\<lparr>sslPreAcceptHookState := SSL_HOOKS_INVOKE\<rparr>)
   \<and> reenable (vc_new\<lparr>sslPreAcceptHookState := SSL_HOOKS_DONE\<rparr>)
       = vc_new\<lparr>sslPreAcceptHookState := SSL_HOOKS_DONE,
               sslSNIHookState := SNI_HOOKS_CONTINUE\<rparr>"
proof -
  have a: "sslPreAcceptHookState vc_hooked = SSL_HOOKS_ACTIVE"
    by (simp add: vc_hooked_def)
  have w: "sslServerHandShakeEvent (env0\<lparr>pre_accept_hooks := [7, 8]\<rparr>) vc_new 0
     = Inr (SSL_WAIT_FOR_HOOK, 0,
            vc_new\<lparr>curHook := [7, 8], sslPreAcceptHookState := SSL_HOOKS_ACTIVE,
                   trace := [HookDispatch 7]\<rparr>)"
    by (simp add: sslServerHandShakeEvent_def wrap_def vc_new_def emit_def)
  have i: "sslPreAcceptHookState vc_new = SSL_HOOKS_INIT"
    by (simp add: vc_new_def)
  have k: "2 \<le> length (pre_accept_hooks (env0\<lparr>pre_accept_hooks := [7, 8]\<rparr>))"
    by simp
  have n: "sslPreAcceptHookState vc_hooked \<noteq> SSL_HOOKS_DONE"
    by (simp add: vc_hooked_def)
  have d: "sslPreAcceptHookState (vc_new\<lparr>sslPreAcceptHookState := SSL_HOOKS_DONE\<rparr>)
             = SSL_HOOKS_DONE"
    by simp
  from pre_accept_one_at_a_time [OF a w i k n d] i show ?thesis
    by (simp add: vc_new_def)
qed

subsection \<open>Session creation and the verdict of the pre-accept hooks\<close>

lemma start_server_creates:
  assumes "ssl s = None" and "SSL_new_ok e" and "\<not> sslClientConnection s"
    and "\<not> (cert_lookup e = Some OPT_TUNNEL \<and> is_transparent (base s))"
  shows "sslStartHandShake e SSL_EVENT_SERVER s err =
     sslServerHandShakeEvent e
       (s\<lparr>handShake := Some \<lparr>hs_bytes = [], hs_consumed = 0\<rparr>,
          ssl := Some (server_session e s)\<rparr>) err"
  using assms
  by (auto simp: sslStartHandShake_def make_ssl_connection_def initialize_handshake_buffers_def
      server_session_def get_socket_def Let_def)

lemma walk_complete:
  assumes "(sslPreAcceptHookState t = SSL_HOOKS_DONE \<and> t' = t)
     \<or> (sslPreAcceptHookState t = SSL_HOOKS_INIT \<and> pre_accept_hooks e = []
          \<and> t' = t\<lparr>curHook := [], sslPreAcceptHookState := SSL_HOOKS_DONE\<rparr>)
     \<or> (sslPreAcceptHookState t = SSL_HOOKS_INVOKE \<and> curHook t = [h]
          \<and> t' = t\<lparr>curHook := [], sslPreAcceptHookState := SSL_HOOKS_DONE\<rparr>)"
  shows "sslServerHandShakeEvent e t err = server_accept e t' err"
  using assms by (auto simp: sslServerHandShakeEvent_def wrap_def)

text \<open>
  Claim C4, as amended. \<^verbatim>\<open>sslStartHandShake\<close> creates the TLS session, when there is none
  and the certificate context does not ask for a tunnel, before the walk over the
  pre-accept hooks starts. Once the walk is complete the verdict is inspected: with
  tunnel the mode becomes blind-tunnel, the session is released, the handshake is marked
  done and the result is done; with terminate the handshake is marked done, the session
  stays as it is, and the result is done.
\<close>

theorem server_verdict:
  assumes "ssl s = None" and "SSL_new_ok e" and "\<not> sslClientConnection s"
    and "\<not> (cert_lookup e = Some OPT_TUNNEL \<and> is_transparent (base s))"
    and "(sslPreAcceptHookState t = SSL_HOOKS_DONE \<and> t' = t)
     \<or> (sslPreAcceptHookState t = SSL_HOOKS_INIT \<and> pre_accept_hooks e = []
          \<and> t' = t\<lparr>curHook := [], sslPreAcceptHookState := SSL_HOOKS_DONE\<rparr>)
     \<or> (sslPreAcceptHookState t = SSL_HOOKS_INVOKE \<and> curHook t = [h]
          \<and> t' = t\<lparr>curHook := [], sslPreAcceptHookState := SSL_HOOKS_DONE\<rparr>)"
  shows "sslStartHandShake e SSL_EVENT_SERVER s err =
       sslServerHandShakeEvent e
         (s\<lparr>handShake := Some \<lparr>hs_bytes = [], hs_consumed = 0\<rparr>,
            ssl := Some (server_session e s)\<rparr>) err
     \<and> sslServerHandShakeEvent e t err =
        (case hookOpRequested t of
           TS_SSL_HOOK_OP_TUNNEL \<Rightarrow>
             Inr (EVENT_DONE, err,
                  t'\<lparr>attributes := TRANSPORT_BLIND_TUNNEL, ssl := None,
                     sslHandShakeComplete := True\<rparr>)
         | TS_SSL_HOOK_OP_TERMINATE \<Rightarrow> Inr (EVENT_DONE, err, t'\<lparr>sslHandShakeComplete := True\<rparr>)
         | TS_SSL_HOOK_OP_DEFAULT \<Rightarrow> server_accept e t' err)"
proof -
  have op: "hookOpRequested t' = hookOpRequested t"
    using assms(5) by auto
  have "server_accept e t' err =
        (case hookOpRequested t of
           TS_SSL_HOOK_OP_TUNNEL \<Rightarrow>
             Inr (EVENT_DONE, err,
                  t'\<lparr>attributes := TRANSPORT_BLIND_TUNNEL, ssl := None,
                     sslHandShakeComplete := True\<rparr>)
         | TS_SSL_HOOK_OP_TERMINATE \<Rightarrow> Inr (EVENT_DONE, err, t'\<lparr>sslHandShakeComplete := True\<rparr>)
         | TS_SSL_HOOK_OP_DEFAULT \<Rightarrow> server_accept e t' err)"
    by (cases "hookOpRequested t") (simp_all add: server_accept_def op)
  with walk_complete [OF assms(5)] start_server_creates [OF assms(1-4)]
  show ?thesis by simp
qed

theorem server_verdict_witness:
  "sslStartHandShake env0 SSL_EVENT_SERVER
       (vc_new\<lparr>hookOpRequested := TS_SSL_HOOK_OP_TERMINATE\<rparr>) 0 =
     Inr (EVENT_DONE, 0,
          vc_new\<lparr>hookOpRequested := TS_SSL_HOOK_OP_TERMINATE,
                 handShake := Some \<lparr>hs_bytes = [], hs_consumed = 0\<rparr>,
                 ssl := Some (server_session env0 vc_new),
                 curHook := [], sslPreAcceptHookState := SSL_HOOKS_DONE,
                 sslHandShakeComplete := True\<rparr>)"
  using server_verdict [of "vc_new\<lparr>hookOpRequested := TS_SSL_HOOK_OP_TERMINATE\<rparr>" env0
      "vc_new\<lparr>hookOpRequested := TS_SSL_HOOK_OP_TERMINATE,
              handShake := Some \<lparr>hs_bytes = [], hs_consumed = 0\<rparr>,
              ssl := Some (server_session env0 vc_new)\<rparr>"
      "vc_new\<lparr>hookOpRequested := TS_SSL_HOOK_OP_TERMINATE,
              handShake := Some \<lparr>hs_bytes = [], hs_consumed = 0\<rparr>,
              ssl := Some (server_session env0 vc_new),
              curHook := [], sslPreAcceptHookState := SSL_HOOKS_DONE\<rparr>" 0 0]
  by (simp add: vc_new_def env0_def server_session_def get_socket_def)

theorem session_before_hooks_counterexample:
  "sslStartHandShake (env0\<lparr>pre_accept_hooks := [7]\<rparr>) SSL_EVENT_SERVER vc_new 0 =
     Inr (SSL_WAIT_FOR_HOOK, 0,
          vc_new\<lparr>handShake := Some \<lparr>hs_bytes = [], hs_consumed = 0\<rparr>,
                 ssl := Some (server_session env0 vc_new),
                 curHook := [7], sslPreAcceptHookState := SSL_HOOKS_ACTIVE,
                 trace := [HookDispatch 7]\<rparr>)
   \<and> sslStartHandShake env0 SSL_EVENT_SERVER
        (vc_new\<lparr>hookOpRequested := TS_SSL_HOOK_OP_TERMINATE\<rparr>) 0 =
     Inr (EVENT_DONE, 0,
          vc_new\<lparr>hookOpRequested := TS_SSL_HOOK_OP_TERMINATE,
                 handShake := Some \<lparr>hs_bytes = [], hs_consumed = 0\<rparr>,
                 ssl := Some (server_session env0 vc_new),
                 curHook := [], sslPreAcceptHookState := SSL_HOOKS_DONE,
                 sslHandShakeComplete := True\<rparr>)"
  by (simp add: sslStartHandShake_def make_ssl_connection_def initialize_handshake_buffers_def
      sslServerHandShakeEvent_def wrap_def server_accept_def vc_new_def env0_def server_session_def
      get_socket_def emit_def)

subsection \<open>Protocol selection\<close>

text \<open>
  Claim C6. When the server-side accept succeeds (both extensions compiled in), the
  protocol is the one ALPN selected, and the one NPN negotiated only when ALPN selected
  none. A selected protocol is looked up in the registered set; when the lookup fails
  the handshake returns error, otherwise done. Without a selected protocol the result is
  done. (A selected protocol without a registered set fails the assertion.)
\<close>

theorem alpn_before_npn:
  assumes "sslPreAcceptHookState s = SSL_HOOKS_DONE"
    and "hookOpRequested s = TS_SSL_HOOK_OP_DEFAULT"
    and "ssl s = Some ss"
    and "(if BIO_get_mem_data (rbio ss) \<le> 0
          then map_sum id snd (read_raw_data e s) else Inr s) = Inr s1"
    and "SSLAccept e s1 = (SSL_ERROR_NONE, errno, s2)"
    and "ssl s2 = Some ss2"
    and "TS_USE_TLS_ALPN e" and "TS_USE_TLS_NPN e"
    and "proto = (if alpn_selected ss2 \<noteq> [] then alpn_selected ss2
                  else next_proto_negotiated ss2)"
    and "s3 = s2\<lparr>sslHandShakeComplete := True, sslHandshakeBeginTime := 0\<rparr>"
  shows "sslServerHandShakeEvent e s err =
    (if proto = [] then Inr (EVENT_DONE, err, s3)
     else
       (case npnSet s2 of
          None \<Rightarrow> Inl AssertFailed
        | Some reg \<Rightarrow>
           (case findEndpoint reg proto of
              None \<Rightarrow>
                Inr (EVENT_ERROR, err,
                     emit (LogError ''failed to find registered SSL endpoint'')
                       (s3\<lparr>npnEndpoint := None, npnSet := None\<rparr>))
            | Some ep \<Rightarrow>
                Inr (EVENT_DONE, err, s3\<lparr>npnEndpoint := Some ep, npnSet := None\<rparr>))))"
proof -
  have "sslServerHandShakeEvent e s err = server_accept e s err"
    using assms(1) by (simp add: sslServerHandShakeEvent_def wrap_def)
  also have "\<dots> =
    (if proto = [] then Inr (EVENT_DONE, err, s3)
     else
       (case npnSet s2 of
          None \<Rightarrow> Inl AssertFailed
        | Some reg \<Rightarrow>
           (case findEndpoint reg proto of
              None \<Rightarrow>
                Inr (EVENT_ERROR, err,
                     emit (LogError ''failed to find registered SSL endpoint'')
                       (s3\<lparr>npnEndpoint := None, npnSet := None\<rparr>))
            | Some ep \<Rightarrow>
                Inr (EVENT_DONE, err, s3\<lparr>npnEndpoint := Some ep, npnSet := None\<rparr>))))"
    using assms(2-10)
    by (auto simp: server_accept_def Let_def split: option.splits)
  finally show ?thesis .
qed

theorem alpn_before_npn_witness:
  "sslServerHandShakeEvent (env0\<lparr>SSLAccept := accept_both\<rparr>) vc_accepting 0 =
     Inr (EVENT_DONE, 0,
          (snd (snd (accept_both vc_accepting)))
            \<lparr>sslHandShakeComplete := True, sslHandshakeBeginTime := 0,
             npnEndpoint := Some 2, npnSet := None\<rparr>)"
  using alpn_before_npn [of vc_accepting
      "\<lparr>ctx = 0, rbio = MemBIO ''hello'', wbio = FdBIO 3, app_data = True,
        tlsext_host_name = None, alpn_selected = [], next_proto_negotiated = []\<rparr>"
      "env0\<lparr>SSLAccept := accept_both\<rparr>" vc_accepting 0 "snd (snd (accept_both vc_accepting))"
      "\<lparr>ctx = 0, rbio = MemBIO [], wbio = FdBIO 3, app_data = True,
        tlsext_host_name = None, alpn_selected = ''h2'',
        next_proto_negotiated = ''http/1.1''\<rparr>" "''h2''"
      "(snd (snd (accept_both vc_accepting)))
            \<lparr>sslHandShakeComplete := True, sslHandshakeBeginTime := 0\<rparr>" 0]
  by (simp add: vc_accepting_def vc_new_def env0_def accept_both_def findEndpoint_def)

subsection \<open>The client side never holds replay buffers\<close>

lemma ssl_read_from_net_keeps:
  "ssl_read_from_net eng s r = Inr (ev, r', s') \<Longrightarrow>
   handShake s' = handShake s \<and> attributes s' = attributes s"
  by (auto simp: ssl_read_from_net_def emit_def Let_def
      split: option.splits sum.splits if_splits)

lemma read_loop_body_keeps:
  "handShake (lp_vc (read_loop_body e lp)) = handShake (lp_vc lp) \<and>
   attributes (lp_vc (read_loop_body e lp)) = attributes (lp_vc lp)"
  by (auto simp: read_loop_body_def Let_def split: sum.splits dest: ssl_read_from_net_keeps)

lemma read_do_while_keeps:
  assumes "read_do_while e s = Some lp"
  shows "handShake (lp_vc lp) = handShake s \<and> attributes (lp_vc lp) = attributes s"
proof -
  let ?P = "\<lambda>lp. handShake (lp_vc lp) = handShake s \<and> attributes (lp_vc lp) = attributes s"
  have "?P lp"
  proof (rule while_option_rule [where P = ?P])
    show "while_option read_loop_cond (read_loop_body e)
            (read_loop_body e
              \<lparr>lp_ret = SSL_READ_ERROR_NONE, lp_r = 0, lp_bytes = 0, lp_fault = None,
               lp_iters = 0, lp_vc = s\<rparr>) = Some lp"
      using assms by (simp add: read_do_while_def)
    show "?P (read_loop_body e
              \<lparr>lp_ret = SSL_READ_ERROR_NONE, lp_r = 0, lp_bytes = 0, lp_fault = None,
               lp_iters = 0, lp_vc = s\<rparr>)"
      using read_loop_body_keeps [of e "\<lparr>lp_ret = SSL_READ_ERROR_NONE, lp_r = 0, lp_bytes = 0,
        lp_fault = None, lp_iters = 0, lp_vc = s\<rparr>"] by simp
    show "\<And>x. ?P x \<Longrightarrow> read_loop_cond x \<Longrightarrow> ?P (read_loop_body e x)"
      by (simp add: read_loop_body_keeps)
  qed
  then show ?thesis .
qed

lemma handshake_dispatch_keeps:
  "handShake (handshake_dispatch r err n s) = handShake s \<and>
   attributes (handshake_dispatch r err n s) = attributes s"
  by (cases r)
     (simp_all add: handshake_dispatch_def emit_def set_read_triggered_def
        set_write_triggered_def)

lemma read_result_dispatch_keeps:
  "handShake (read_result_dispatch e r rr b s) = handShake s \<and>
   attributes (read_result_dispatch e r rr b s) = attributes s"
  by (cases r)
     (simp_all add: read_result_dispatch_def emit_def set_read_triggered_def Let_def)

lemma client_handshake_keeps:
  assumes "sslClientConnection s"
    and "sslStartHandShake e SSL_EVENT_CLIENT s err = Inr (r, err', s')"
  shows "handShake s' = handShake s \<and> attributes s' = attributes s"
  using assms
  by (auto simp: sslStartHandShake_def sslClientHandShakeEvent_def make_ssl_connection_def
      emit_def Let_def
      split: if_splits option.splits prod.splits ssl_error_t.splits)

lemma client_net_read_io_keeps:
  assumes "sslClientConnection s" and "handShake s = None"
    and "net_read_io e s = Some (Inr s')"
  shows "handShake s' = None \<and> attributes s' = attributes s"
proof (cases "attributes s = TRANSPORT_BLIND_TUNNEL \<or> sslClientRenegotiationAbort s
    \<or> \<not> lock_is_locked e \<or> \<not> enabled (read_state s) \<or> op (vio (read_state s)) \<noteq> VIO_READ")
  case True
  with assms show ?thesis
    by (auto simp: net_read_io_def Let_def emit_def set_read_triggered_def split: if_splits)
next
  case False
  with assms(3) obtain m where m: "buffer (vio (read_state s)) = Some m"
    by (auto simp: net_read_io_def Let_def split: option.splits)
  show ?thesis
  proof (cases "sslHandShakeComplete s")
    case hs: False
    with False m assms(3)
    have "net_read_io_handshake e (ntodo (vio (read_state s))) s = Inr s'"
      by (simp add: net_read_io_def Let_def)
    with assms(1) obtain r err s1 where
      st: "sslStartHandShake e SSL_EVENT_CLIENT s (err_uninit e) = Inr (r, err, s1)"
      and rest: "(case handShake s1 of
            None \<Rightarrow> Inr (handshake_dispatch r err (ntodo (vio (read_state s))) s1)
          | Some h \<Rightarrow> Inl NullDeref) = (Inr s' :: fault + vc)
          \<or> handShake s1 \<noteq> None"
      by (auto simp: net_read_io_handshake_def split: sum.splits prod.splits option.splits)
    from client_handshake_keeps [OF assms(1) st] assms(2)
    have k: "handShake s1 = None" "attributes s1 = attributes s" by simp_all
    with rest have "s' = handshake_dispatch r err (ntodo (vio (read_state s))) s1"
      by simp
    with k show ?thesis
      by (simp add: handshake_dispatch_keeps)
  next
    case hs: True
    show ?thesis
    proof (cases "ntodo (vio (read_state s)) \<le> 0 \<or> write_avail m = 0")
      case True
      with False m hs assms show ?thesis
        by (auto simp: net_read_io_def Let_def emit_def)
    next
      case nd: False
      have sw: "switch_read_bio s = Inr s"
        using assms(2) by (simp add: switch_read_bio_def)
      from False m hs nd sw assms(3) obtain lp where
        lp: "read_do_while e s = Some lp"
        and res: "s' = read_result_dispatch e (lp_ret lp) (lp_r lp) (lp_bytes lp) (lp_vc lp)"
        by (auto simp: net_read_io_def Let_def split: option.splits)
      from read_do_while_keeps [OF lp] res assms(2) show ?thesis
        by (simp add: read_result_dispatch_keeps)
    qed
  qed
qed


text \<open>
  Claim C10. The replay buffers and the memory read source are created for server-side
  connections only. For a client-side connection \<^verbatim>\<open>make_ssl_connection\<close> binds both sides
  of the session to the socket and leaves the handshake buffers alone; for a server-side
  one it allocates them and gives the session a memory read source. So on a client-side
  connection without replay buffers \<^verbatim>\<open>net_read_io\<close> never gets any and never changes the
  transport mode: the replay and the promotion to blind tunnel do not run.
\<close>

theorem replay_buffers_server_only:
  assumes "SSL_new_ok e"
    and "sslClientConnection sc"
    and "\<not> sslClientConnection sv"
    and "handShake sc = None"
    and "net_read_io e sc = Some (Inr sc')"
  shows "make_ssl_connection e c sc =
       sc\<lparr>ssl := Some \<lparr>ctx = c, rbio = FdBIO (get_socket sc), wbio = FdBIO (get_socket sc),
                       app_data = True, tlsext_host_name = None, alpn_selected = [],
                       next_proto_negotiated = []\<rparr>\<rparr>
     \<and> handShake (make_ssl_connection e c sc) = handShake sc
     \<and> make_ssl_connection e c sv =
       sv\<lparr>handShake := Some \<lparr>hs_bytes = [], hs_consumed = 0\<rparr>,
          ssl := Some \<lparr>ctx = c, rbio = MemBIO [], wbio = FdBIO (get_socket sv),
                       app_data = True, tlsext_host_name = None, alpn_selected = [],
                       next_proto_negotiated = []\<rparr>\<rparr>
     \<and> handShake sc' = None \<and> attributes sc' = attributes sc"
proof -
  have "make_ssl_connection e c sc =
       sc\<lparr>ssl := Some \<lparr>ctx = c, rbio = FdBIO (get_socket sc), wbio = FdBIO (get_socket sc),
                       app_data = True, tlsext_host_name = None, alpn_selected = [],
                       next_proto_negotiated = []\<rparr>\<rparr>"
    using assms(1,2) by (simp add: make_ssl_connection_def)
  moreover from this have "handShake (make_ssl_connection e c sc) = handShake sc"
    by simp
  moreover have "make_ssl_connection e c sv =
       sv\<lparr>handShake := Some \<lparr>hs_bytes = [], hs_consumed = 0\<rparr>,
          ssl := Some \<lparr>ctx = c, rbio = MemBIO [], wbio = FdBIO (get_socket sv),
                       app_data = True, tlsext_host_name = None, alpn_selected = [],
                       next_proto_negotiated = []\<rparr>\<rparr>"
    using assms(1,3)
    by (simp add: make_ssl_connection_def initialize_handshake_buffers_def get_socket_def)
  moreover note client_net_read_io_keeps [OF assms(2,4,5)]
  ultimately show ?thesis by simp
qed

theorem replay_buffers_server_only_witness:
  "make_ssl_connection env0 1 vc_client =
       vc_client\<lparr>ssl := Some \<lparr>ctx = 1, rbio = FdBIO 5, wbio = FdBIO 5,
                       app_data = True, tlsext_host_name = None, alpn_selected = [],
                       next_proto_negotiated = []\<rparr>\<rparr>
   \<and> handShake (make_ssl_connection env0 1 vc_client) = None
   \<and> make_ssl_connection env0 1 vc_new =
       vc_new\<lparr>handShake := Some \<lparr>hs_bytes = [], hs_consumed = 0\<rparr>,
          ssl := Some \<lparr>ctx = 1, rbio = MemBIO [], wbio = FdBIO NO_FD,
                       app_data = True, tlsext_host_name = None, alpn_selected = [],
                       next_proto_negotiated = []\<rparr>\<rparr>
   \<and> handShake
        (emit ReadReschedule (emit ReadReadyListRemove
          (vc_client\<lparr>ssl := Some \<lparr>ctx = 1, rbio = FdBIO 5, wbio = FdBIO 5,
                       app_data = True, tlsext_host_name = None, alpn_selected = [],
                       next_proto_negotiated = []\<rparr>,
                     read_state := \<lparr>enabled = True, triggered = False,
                       vio = \<lparr>nbytes = 100, ndone = 0, op = VIO_READ,
                              buffer = Some \<lparr>contents = [], wblocks = [10]\<rparr>\<rparr>\<rparr>\<rparr>))) = None"
proof -
  have n: "SSL_new_ok env0" by (simp add: env0_def)
  have c: "sslClientConnection vc_client" by (simp add: vc_client_def)
  have v: "\<not> sslClientConnection vc_new" by (simp add: vc_new_def)
  have h: "handShake vc_client = None" by (simp add: vc_client_def vc_new_def)
  have r: "net_read_io env0 vc_client = Some (Inr
        (emit ReadReschedule (emit ReadReadyListRemove
          (vc_client\<lparr>ssl := Some \<lparr>ctx = 1, rbio = FdBIO 5, wbio = FdBIO 5,
                       app_data = True, tlsext_host_name = None, alpn_selected = [],
                       next_proto_negotiated = []\<rparr>,
                     read_state := \<lparr>enabled = True, triggered = False,
                       vio = \<lparr>nbytes = 100, ndone = 0, op = VIO_READ,
                              buffer = Some \<lparr>contents = [], wblocks = [10]\<rparr>\<rparr>\<rparr>\<rparr>))))"
    by (simp add: net_read_io_def net_read_io_handshake_def sslStartHandShake_def
        sslClientHandShakeEvent_def make_ssl_connection_def handshake_dispatch_def
        set_read_triggered_def get_socket_def vc_client_def vc_new_def env0_def emit_def
        ntodo_def Let_def)
  from replay_buffers_server_only [OF n c v h r, of 1] show ?thesis
    by (simp add: vc_client_def vc_new_def get_socket_def)
qed

subsection \<open>The SNI hooks\<close>

lemma sni_hook_loop_stopped: "sni_hook_loop hooks False s = (False, s)"
  by (cases hooks) simp_all

lemma sni_hook_loop_step:
  "sni_hook_loop (hook # rest) True s =
     (if sslSNIHookState (invoke_hook hook s) = SNI_HOOKS_DONE
      then (False, invoke_hook hook s)
      else sni_hook_loop rest True (invoke_hook hook s))"
  by (simp add: Let_def sni_hook_loop_stopped invoke_hook_def)

lemma sni_hook_loop_prefix:
  "all_reenable pre s \<Longrightarrow>
   sni_hook_loop (pre @ rest) True s = sni_hook_loop rest True (fold invoke_hook pre s)"
proof (induction pre arbitrary: s)
  case Nil
  then show ?case by simp
next
  case (Cons g pre)
  from Cons.prems have "sslSNIHookState (invoke_hook g s) \<noteq> SNI_HOOKS_DONE"
    and "all_reenable pre (invoke_hook g s)" by simp_all
  then show ?case
    using Cons.IH [of "invoke_hook g s"] by (simp only: append_Cons sni_hook_loop_step) simp
qed

lemma sni_hook_loop_result:
  "fst (sni_hook_loop hooks True s) = all_reenable hooks s"
proof (induction hooks arbitrary: s)
  case Nil
  then show ?case by simp
next
  case (Cons g hooks)
  then show ?case
    by (simp only: sni_hook_loop_step all_reenable.simps) simp
qed

text \<open>
  Claim C8. \<^verbatim>\<open>callHooks\<close> takes the SNI event id only (any other id fails its assertion)
  and walks the SNI chain in registration order, each hook invoked after the SNI state
  was reset to done. It stops at the first hook after which the SNI state is still done
  and returns false; after a hook that re-enabled it goes on with the rest of the chain.
  It returns true exactly when every hook it invoked re-enabled: when the hooks of a
  prefix re-enable and the next one does not, exactly these are invoked and the result
  is false; when all re-enable, all are invoked and the result is true.
\<close>

theorem callHooks_walk:
  assumes "eventId \<noteq> TS_SSL_SNI_HOOK"
    and "sni_hooks e = hook # rest"
    and "sni_hooks ep = pre @ h # post"
    and "sni_hooks ea = pre"
    and "all_reenable pre s"
    and "sslSNIHookState (invoke_hook h (fold invoke_hook pre s)) = SNI_HOOKS_DONE"
  shows "callHooks e eventId s = Inl AssertFailed
     \<and> callHooks e TS_SSL_SNI_HOOK s =
         (if sslSNIHookState (invoke_hook hook s) = SNI_HOOKS_DONE
          then Inr (False, invoke_hook hook s)
          else callHooks (e\<lparr>sni_hooks := rest\<rparr>) TS_SSL_SNI_HOOK (invoke_hook hook s))
     \<and> (\<exists>s'. callHooks e TS_SSL_SNI_HOOK s = Inr (all_reenable (sni_hooks e) s, s'))
     \<and> callHooks ep TS_SSL_SNI_HOOK s =
         Inr (False, invoke_hook h (fold invoke_hook pre s))
     \<and> callHooks ea TS_SSL_SNI_HOOK s = Inr (True, fold invoke_hook pre s)"
proof -
  have "callHooks e eventId s = Inl AssertFailed"
    using assms(1) by (simp add: callHooks_def)
  moreover have "callHooks e TS_SSL_SNI_HOOK s =
         (if sslSNIHookState (invoke_hook hook s) = SNI_HOOKS_DONE
          then Inr (False, invoke_hook hook s)
          else callHooks (e\<lparr>sni_hooks := rest\<rparr>) TS_SSL_SNI_HOOK (invoke_hook hook s))"
    using assms(2) by (simp add: callHooks_def sni_hook_loop_step del: sni_hook_loop.simps)
  moreover have "\<exists>s'. callHooks e TS_SSL_SNI_HOOK s = Inr (all_reenable (sni_hooks e) s, s')"
    using sni_hook_loop_result [of "sni_hooks e" s]
    by (cases "sni_hook_loop (sni_hooks e) True s") (simp add: callHooks_def)
  moreover have "callHooks ep TS_SSL_SNI_HOOK s =
         Inr (False, invoke_hook h (fold invoke_hook pre s))"
    using assms(3,6) sni_hook_loop_prefix [OF assms(5), of "h # post"]
    by (simp add: callHooks_def sni_hook_loop_step del: sni_hook_loop.simps)
  moreover have "callHooks ea TS_SSL_SNI_HOOK s = Inr (True, fold invoke_hook pre s)"
    using assms(4) sni_hook_loop_prefix [OF assms(5), of "[]"]
    by (simp add: callHooks_def)
  ultimately show ?thesis by simp
qed

theorem callHooks_walk_witness:
  "callHooks (env0\<lparr>sni_hooks := [plugin_reenables, plugin_suspends, plugin_reenables]\<rparr>)
        TS_OTHER_HOOK vc_sni = Inl AssertFailed
   \<and> callHooks (env0\<lparr>sni_hooks := [plugin_reenables, plugin_suspends, plugin_reenables]\<rparr>)
        TS_SSL_SNI_HOOK vc_sni =
       Inr (False, vc_sni\<lparr>sslSNIHookState := SNI_HOOKS_DONE,
                         hookOpRequested := TS_SSL_HOOK_OP_TUNNEL\<rparr>)
   \<and> callHooks (env0\<lparr>sni_hooks := [plugin_reenables]\<rparr>) TS_SSL_SNI_HOOK vc_sni =
       Inr (True, vc_sni\<lparr>sslSNIHookState := SNI_HOOKS_CONTINUE\<rparr>)"
proof -
  have 1: "TS_OTHER_HOOK \<noteq> TS_SSL_SNI_HOOK" by simp
  have 2: "sni_hooks (env0\<lparr>sni_hooks := [plugin_reenables, plugin_suspends, plugin_reenables]\<rparr>)
      = plugin_reenables # [plugin_suspends, plugin_reenables]" by simp
  have 3: "sni_hooks (env0\<lparr>sni_hooks := [plugin_reenables, plugin_suspends, plugin_reenables]\<rparr>)
      = [plugin_reenables] @ plugin_suspends # [plugin_reenables]" by simp
  have 4: "sni_hooks (env0\<lparr>sni_hooks := [plugin_reenables]\<rparr>) = [plugin_reenables]" by simp
  have 5: "all_reenable [plugin_reenables] vc_sni"
    by (simp add: invoke_hook_def plugin_reenables_def reenable_def vc_sni_def)
  have 6: "sslSNIHookState (invoke_hook plugin_suspends (fold invoke_hook [plugin_reenables] vc_sni))
      = SNI_HOOKS_DONE"
    by (simp add: invoke_hook_def plugin_suspends_def)
  have 7: "invoke_hook plugin_suspends (fold invoke_hook [plugin_reenables] vc_sni) =
      vc_sni\<lparr>sslSNIHookState := SNI_HOOKS_DONE, hookOpRequested := TS_SSL_HOOK_OP_TUNNEL\<rparr>"
    by (simp add: invoke_hook_def plugin_suspends_def plugin_reenables_def reenable_def
        vc_sni_def)
  have 8: "fold invoke_hook [plugin_reenables] vc_sni =
      vc_sni\<lparr>sslSNIHookState := SNI_HOOKS_CONTINUE\<rparr>"
    by (simp add: invoke_hook_def plugin_reenables_def reenable_def vc_sni_def)
  from callHooks_walk [OF 1 2 3 4 5 6]
  have "callHooks (env0\<lparr>sni_hooks := [plugin_reenables, plugin_suspends, plugin_reenables]\<rparr>)
          TS_OTHER_HOOK vc_sni = Inl AssertFailed"
    and "callHooks (env0\<lparr>sni_hooks := [plugin_reenables, plugin_suspends, plugin_reenables]\<rparr>)
          TS_SSL_SNI_HOOK vc_sni =
         Inr (False, invoke_hook plugin_suspends (fold invoke_hook [plugin_reenables] vc_sni))"
    and "callHooks (env0\<lparr>sni_hooks := [plugin_reenables]\<rparr>) TS_SSL_SNI_HOOK vc_sni =
         Inr (True, fold invoke_hook [plugin_reenables] vc_sni)"
    by blast+
  with 7 8 show ?thesis
    by (simp add: invoke_hook_def plugin_suspends_def)
qed

subsection \<open>Teardown with a hook outstanding\<close>

text \<open>
  Claim C3, as amended. A call of \<^verbatim>\<open>free\<close> while the pre-accept hook state is active (the
  socket closed, as \<^verbatim>\<open>free\<close> asserts) logs the error and then frees the connection all
  the same: the session is released, the fields are reset, the hook state goes back to
  init, and the object is handed back to its allocator, which is the last event of the
  trace after the logged error.
\<close>

theorem free_with_active_hook:
  assumes "sslPreAcceptHookState s = SSL_HOOKS_ACTIVE" and "con_fd (base s) = NO_FD"
  shows "\<exists>s'. free s = Inr s'
     \<and> trace s' = trace s @ [LogError ''SSLNetVconnection freed with outstanding hook'',
                               if from_accept_thread (base s) then AllocatorFree else ThreadFree]
     \<and> sslPreAcceptHookState s' = SSL_HOOKS_INIT \<and> curHook s' = []
     \<and> ssl s' = None \<and> \<not> sslHandShakeComplete s'
     \<and> hookOpRequested s' = TS_SSL_HOOK_OP_DEFAULT"
  using assms by (simp add: free_def emit_def Let_def)

theorem free_with_active_hook_witness:
  "\<exists>s'. free vc_hooked = Inr s'
     \<and> trace s' = [LogError ''SSLNetVconnection freed with outstanding hook'', ThreadFree]
     \<and> sslPreAcceptHookState s' = SSL_HOOKS_INIT \<and> curHook s' = []
     \<and> ssl s' = None \<and> \<not> sslHandShakeComplete s'
     \<and> hookOpRequested s' = TS_SSL_HOOK_OP_DEFAULT"
proof -
  have a: "sslPreAcceptHookState vc_hooked = SSL_HOOKS_ACTIVE"
    by (simp add: vc_hooked_def)
  have f: "con_fd (base vc_hooked) = NO_FD"
    by (simp add: vc_hooked_def vc_new_def)
  from free_with_active_hook [OF a f] show ?thesis
    by (simp add: vc_hooked_def vc_new_def)
qed

theorem free_not_refused_counterexample:
  "free vc_hooked =
     Inr (vc_new\<lparr>trace := [LogError ''SSLNetVconnection freed with outstanding hook'',
                            ThreadFree]\<rparr>)"
  by (simp add: free_def emit_def Let_def vc_hooked_def vc_new_def)

subsection \<open>Record sizing on the write path\<close>

lemma write_loop_ops:
  "write_loop e sent towrite w = Inr w' \<Longrightarrow> \<forall>x. record_cap e sent x \<le> C \<Longrightarrow>
     \<exists>new. wl_ops w' = wl_ops w @ new \<and> (\<forall>l\<in>set new. l \<le> C)"
proof (induction e sent towrite w rule: write_loop.induct)
  case (1 e sent towrite w)
  show ?case
  proof (cases "wl_b w")
    case Nil
    with "1.prems" show ?thesis
      by (subst (asm) write_loop.simps) simp
  next
    case (Cons b "next")
    let ?l = "b - wl_offset w"
    show ?thesis
    proof (cases "?l \<le> 0")
      case True
      let ?w1 = "w\<lparr>wl_l := ?l, wl_offset := - ?l, wl_b := next\<rparr>"
      show ?thesis
      proof (cases "loop_again towrite ?w1")
        case again: True
        with "1.prems"(1) Cons True have "write_loop e sent towrite ?w1 = Inr w'"
          by (subst (asm) write_loop.simps) (simp add: Let_def)
        from "1.IH"(1) [OF Cons refl True refl again this "1.prems"(2)] show ?thesis by simp
      next
        case False
        with "1.prems"(1) Cons True have "w' = ?w1"
          by (subst (asm) write_loop.simps) (simp add: Let_def)
        then show ?thesis by simp
      qed
    next
      case False
      let ?wavail = "towrite - wl_total_written w"
      let ?orig = "if ?l > ?wavail then ?wavail else ?l"
      let ?l2 = "record_cap e sent ?orig"
      show ?thesis
      proof (cases "?l2 = 0")
        case True
        with "1.prems"(1) Cons False have "w' = w\<lparr>wl_l := ?l2\<rparr>"
          by (subst (asm) write_loop.simps) (simp add: Let_def)
        then show ?thesis by simp
      next
        case nz: False
        obtain err r errno where eng: "SSLWriteBuffer e (wl_calls w) ?l2 = (err, r, errno)"
          by (cases "SSLWriteBuffer e (wl_calls w) ?l2")
        let ?total = "wl_total_written w + ?l2"
        let ?w1 = "w\<lparr>wl_l := ?l2, wl_r := r, wl_err := err, wl_errno := errno,
                     wl_wattempted := (if r = ?l2 then ?total else ?l2),
                     wl_total_written := ?total, wl_calls := Suc (wl_calls w),
                     wl_ops := wl_ops w @ [?l2]\<rparr>"
        let ?w2 = "if ?l2 = ?orig then ?w1\<lparr>wl_offset := 0, wl_b := next\<rparr>
                   else ?w1\<lparr>wl_offset := wl_offset w + ?l2\<rparr>"
        have ops2: "wl_ops ?w2 = wl_ops w @ [?l2]" by simp
        have le: "?l2 \<le> C" using "1.prems"(2) by blast
        show ?thesis
        proof (cases "loop_again towrite ?w2")
          case again: True
          with "1.prems"(1) Cons False nz eng have "write_loop e sent towrite ?w2 = Inr w'"
            by (subst (asm) write_loop.simps) (simp add: Let_def)
          from "1.IH"(2) [OF Cons refl False refl refl refl nz eng [symmetric] refl refl refl
              refl again this "1.prems"(2)]
          obtain new where "wl_ops w' = wl_ops ?w2 @ new" and "\<forall>l\<in>set new. l \<le> C"
            by blast
          with ops2 le have "wl_ops w' = wl_ops w @ (?l2 # new) \<and> (\<forall>l\<in>set (?l2 # new). l \<le> C)"
            by simp
          then show ?thesis by blast
        next
          case stop: False
          with "1.prems"(1) Cons False nz eng have "w' = ?w2"
            by (subst (asm) write_loop.simps) (simp add: Let_def)
          with ops2 le have "wl_ops w' = wl_ops w @ [?l2] \<and> (\<forall>l\<in>set [?l2]. l \<le> C)"
            by simp
          then show ?thesis by blast
        qed
      qed
    qed
  qed
qed


lemma record_cap_dynamic:
  "ssl_maxrecord e = - 1 \<Longrightarrow>
   record_cap e sent x \<le> (if sent < SSL_DEF_TLS_RECORD_BYTE_THRESHOLD e
                          then int (SSL_DEF_TLS_RECORD_SIZE e)
                          else int (SSL_MAX_TLS_RECORD_SIZE e))"
  by (simp add: record_cap_def Let_def)

lemma record_cap_fixed: "0 < ssl_maxrecord e \<Longrightarrow> record_cap e sent x \<le> ssl_maxrecord e"
  by (simp add: record_cap_def Let_def)

lemma load_buffer_and_write_ops:
  assumes "load_buffer_and_write e s towrite wattempted total_written buf needs =
             Inr (r, wa', tw', needs', s')"
    and "attributes s \<noteq> TRANSPORT_BLIND_TUNNEL"
    and "sent = (if ssl_maxrecord e = - 1
                    \<and> narrow_int32
                         (ink_hrtime_diff_msec e (ink_get_hrtime_internal e) (sslLastWriteTime s))
                        > SSL_DEF_TLS_RECORD_MSEC_THRESHOLD e
                 then 0 else sslTotalBytesSent s)"
  shows "\<exists>w. write_loop e sent towrite
             \<lparr>wl_b = rblocks buf, wl_offset = start_offset buf, wl_l = 0, wl_r = 0,
              wl_err = SSL_ERROR_NONE, wl_errno = 0, wl_wattempted = wattempted,
              wl_total_written = total_written, wl_calls = ssl_calls s, wl_ops = []\<rparr> = Inr w
          \<and> trace s' = trace s @ map SSLWrite (wl_ops w)
          \<and> tw' = wl_total_written w
          \<and> (sslTotalBytesSent s' = sent \<or> sslTotalBytesSent s' = sent + tw')"
  using assms
  by (auto simp: load_buffer_and_write_def Let_def
      split: if_splits sum.splits ssl_error_t.splits)


text \<open>
  The record caps of one call. In dynamic mode (\<^verbatim>\<open>ssl_maxrecord\<close> is \<open>-1\<close>) the count of
  bytes sent since idle restarts from 0 when the stored \<^verbatim>\<open>msec_since_last_write\<close> exceeds
  the threshold; every write operation of the call is then capped at the default record
  size while that count is below the byte threshold and at the maximum record size
  otherwise, and the count ends as the restarted value, plus the bytes written when the
  call made progress. With a fixed cap (\<^verbatim>\<open>ssl_maxrecord\<close> positive) every write operation
  is capped at it.
\<close>

theorem record_caps:
  assumes "load_buffer_and_write e s towrite wattempted total_written buf needs =
             Inr (r, wa', tw', needs', s')"
    and "attributes s \<noteq> TRANSPORT_BLIND_TUNNEL"
    and "sent = (if ssl_maxrecord e = - 1
                    \<and> narrow_int32
                         (ink_hrtime_diff_msec e (ink_get_hrtime_internal e) (sslLastWriteTime s))
                        > SSL_DEF_TLS_RECORD_MSEC_THRESHOLD e
                 then 0 else sslTotalBytesSent s)"
  shows "\<exists>ops. trace s' = trace s @ map SSLWrite ops
     \<and> (ssl_maxrecord e = - 1 \<longrightarrow>
          (\<forall>l\<in>set ops. l \<le> (if sent < SSL_DEF_TLS_RECORD_BYTE_THRESHOLD e
                               then int (SSL_DEF_TLS_RECORD_SIZE e)
                               else int (SSL_MAX_TLS_RECORD_SIZE e)))
          \<and> (sslTotalBytesSent s' = sent \<or> sslTotalBytesSent s' = sent + tw'))
     \<and> (0 < ssl_maxrecord e \<longrightarrow> (\<forall>l\<in>set ops. l \<le> ssl_maxrecord e))"
proof -
  let ?w0 = "\<lparr>wl_b = rblocks buf, wl_offset = start_offset buf, wl_l = 0, wl_r = 0,
              wl_err = SSL_ERROR_NONE, wl_errno = 0, wl_wattempted = wattempted,
              wl_total_written = total_written, wl_calls = ssl_calls s, wl_ops = []\<rparr>"
  from load_buffer_and_write_ops [OF assms] obtain w where
    wl: "write_loop e sent towrite ?w0 = Inr w"
    and tr: "trace s' = trace s @ map SSLWrite (wl_ops w)"
    and cnt: "sslTotalBytesSent s' = sent \<or> sslTotalBytesSent s' = sent + tw'"
    by blast
  have dyn: "\<forall>l\<in>set (wl_ops w). l \<le> (if sent < SSL_DEF_TLS_RECORD_BYTE_THRESHOLD e
                               then int (SSL_DEF_TLS_RECORD_SIZE e)
                               else int (SSL_MAX_TLS_RECORD_SIZE e))"
    if "ssl_maxrecord e = - 1"
    using write_loop_ops [OF wl, of "if sent < SSL_DEF_TLS_RECORD_BYTE_THRESHOLD e
                               then int (SSL_DEF_TLS_RECORD_SIZE e)
                               else int (SSL_MAX_TLS_RECORD_SIZE e)"]
      record_cap_dynamic [OF that, of sent]
    by simp
  have fixed: "\<forall>l\<in>set (wl_ops w). l \<le> ssl_maxrecord e" if "0 < ssl_maxrecord e"
    using write_loop_ops [OF wl, of "ssl_maxrecord e"] record_cap_fixed [OF that, of sent]
    by simp
  from tr cnt dyn fixed show ?thesis by blast
qed

theorem record_caps_example:
  "load_buffer_and_write env_later vc_writing 3000 0 0 \<lparr>start_offset = 0, rblocks = [3000]\<rparr> {}
     = Inr (3000, 3000, 3000, {},
            vc_writing\<lparr>sslTotalBytesSent := 3000, sslLastWriteTime := 5000000000,
                       ssl_calls := 3,
                       trace := [SSLWrite 1300, SSLWrite 1300, SSLWrite 400]\<rparr>)
   \<and> (\<exists>ops. [SSLWrite 1300, SSLWrite 1300, SSLWrite 400] = map SSLWrite ops
          \<and> (\<forall>l\<in>set ops. l \<le> 1300))"
proof -
  have run: "load_buffer_and_write env_later vc_writing 3000 0 0
       \<lparr>start_offset = 0, rblocks = [3000]\<rparr> {}
     = Inr (3000, 3000, 3000, {},
            vc_writing\<lparr>sslTotalBytesSent := 3000, sslLastWriteTime := 5000000000,
                       ssl_calls := 3,
                       trace := [SSLWrite 1300, SSLWrite 1300, SSLWrite 400]\<rparr>)"
    by (simp add: load_buffer_and_write_def write_loop.simps record_cap_def loop_again_def
        narrow_int32_def env_later_def env0_def vc_writing_def vc_new_def Let_def)
  have mode: "attributes vc_writing \<noteq> TRANSPORT_BLIND_TUNNEL"
    by (simp add: vc_writing_def vc_new_def)
  have sent: "(0::int) = (if ssl_maxrecord env_later = - 1
         \<and> narrow_int32 (ink_hrtime_diff_msec env_later (ink_get_hrtime_internal env_later)
              (sslLastWriteTime vc_writing)) > SSL_DEF_TLS_RECORD_MSEC_THRESHOLD env_later
        then 0 else sslTotalBytesSent vc_writing)"
    by (simp add: narrow_int32_def env_later_def env0_def vc_writing_def vc_new_def)
  from record_caps [OF run mode sent] run show ?thesis
    by (simp add: env_later_def env0_def vc_writing_def vc_new_def)
qed

lemma narrow_int32_in_range:
  "- 2147483648 \<le> x \<Longrightarrow> x < 2147483648 \<Longrightarrow> narrow_int32 x = x"
  by (simp add: narrow_int32_def)

lemma record_caps_in_range:
  assumes "load_buffer_and_write e s towrite wattempted total_written buf needs =
             Inr (r, wa', tw', needs', s')"
    and "attributes s \<noteq> TRANSPORT_BLIND_TUNNEL"
    and "ssl_maxrecord e = - 1"
    and "msec = ink_hrtime_diff_msec e (ink_get_hrtime_internal e) (sslLastWriteTime s)"
    and "- 2147483648 \<le> msec" and "msec < 2147483648"
    and "sent = (if msec > SSL_DEF_TLS_RECORD_MSEC_THRESHOLD e then 0 else sslTotalBytesSent s)"
  shows "\<exists>ops. trace s' = trace s @ map SSLWrite ops
     \<and> (\<forall>l\<in>set ops. l \<le> (if sent < SSL_DEF_TLS_RECORD_BYTE_THRESHOLD e
                               then int (SSL_DEF_TLS_RECORD_SIZE e)
                               else int (SSL_MAX_TLS_RECORD_SIZE e)))
     \<and> (sslTotalBytesSent s' = sent \<or> sslTotalBytesSent s' = sent + tw')"
proof -
  have "sent = (if ssl_maxrecord e = - 1
                    \<and> narrow_int32
                         (ink_hrtime_diff_msec e (ink_get_hrtime_internal e) (sslLastWriteTime s))
                        > SSL_DEF_TLS_RECORD_MSEC_THRESHOLD e
                 then 0 else sslTotalBytesSent s)"
    using assms(3-7) by (simp add: narrow_int32_in_range)
  from record_caps [OF assms(1,2) this] assms(3) show ?thesis by simp
qed

text \<open>
  Claim C5. In dynamic mode, when the time since the last write exceeds the idle
  threshold the count of bytes sent since idle is reset to 0, and each write operation is
  then capped at the default record size while the count is below the byte threshold.
  The code misses this for a long idle time. Here the connection has been idle for
  \<open>2147484648\<close> milliseconds, more than the threshold of 1000; stored in the 32-bit
  \<^verbatim>\<open>msec_since_last_write\<close> the number is negative, so the count is not reset: it stays
  at two million, above the byte threshold, and the 3000 bytes go out as one record of
  3000 bytes, more than the default record size of 1300.
\<close>

theorem idle_reset_missed:
  "ink_hrtime_diff_msec env_idle_long (ink_get_hrtime_internal env_idle_long)
       (sslLastWriteTime vc_idle_long) = 2147484648
   \<and> SSL_DEF_TLS_RECORD_MSEC_THRESHOLD env_idle_long = 1000
   \<and> SSL_DEF_TLS_RECORD_SIZE env_idle_long = 1300
   \<and> load_buffer_and_write env_idle_long vc_idle_long 3000 0 0
         \<lparr>start_offset = 0, rblocks = [3000]\<rparr> {}
       = Inr (3000, 3000, 3000, {},
              vc_idle_long\<lparr>sslTotalBytesSent := 2003000, sslLastWriteTime := 2147485648000000,
                           ssl_calls := 1, trace := [SSLWrite 3000]\<rparr>)"
  by (simp add: load_buffer_and_write_def write_loop.simps record_cap_def loop_again_def
      narrow_int32_def env_idle_long_def env0_def vc_idle_long_def vc_new_def Let_def)

theorem idle_reset_missed_witness:
  "load_buffer_and_write env_idle_long vc_idle_long 3000 0 0
         \<lparr>start_offset = 0, rblocks = [3000]\<rparr> {}
       = Inr (3000, 3000, 3000, {},
              vc_idle_long\<lparr>sslTotalBytesSent := 2003000, sslLastWriteTime := 2147485648000000,
                           ssl_calls := 1, trace := [SSLWrite 3000]\<rparr>)"
  using idle_reset_missed by simp

subsection \<open>Promotion to blind tunnel with replay\<close>

text \<open>
  The replay. When \<^verbatim>\<open>net_read_io\<close> finds, after the handshake step, the replay buffers in
  place, the transport switched to blind tunnel and the handshake not marked complete, it
  marks the handshake complete, appends every byte the replay buffer holds, in order, to
  the read VIO's buffer, advances \<^verbatim>\<open>nbytes\<close> and \<^verbatim>\<open>ndone\<close> by their number, releases the
  replay buffers, and signals read-complete exactly twice, once before and once after the
  copy.
\<close>

theorem blind_tunnel_promotion:
  assumes "attributes s \<noteq> TRANSPORT_BLIND_TUNNEL"
    and "\<not> sslClientRenegotiationAbort s"
    and "lock_is_locked e"
    and "enabled (read_state s)"
    and "op (vio (read_state s)) = VIO_READ"
    and "buffer (vio (read_state s)) = Some m0"
    and "\<not> sslHandShakeComplete s"
    and "sslStartHandShake e
           (if sslClientConnection s then SSL_EVENT_CLIENT else SSL_EVENT_SERVER)
           s (err_uninit e) = Inr (r, err, s1)"
    and "handShake s1 = Some h"
    and "attributes s1 = TRANSPORT_BLIND_TUNNEL"
    and "\<not> sslHandShakeComplete s1"
    and "buffer (vio (read_state s1)) = Some m"
  shows "\<exists>s'. net_read_io e s = Some (Inr s')
     \<and> sslHandShakeComplete s'
     \<and> buffer (vio (read_state s')) = Some (m\<lparr>contents := contents m @ hs_bytes h\<rparr>)
     \<and> nbytes (vio (read_state s')) = nbytes (vio (read_state s1)) + int (length (hs_bytes h))
     \<and> ndone (vio (read_state s')) = ndone (vio (read_state s1)) + int (length (hs_bytes h))
     \<and> handShake s' = None
     \<and> trace s' = trace s1 @ [ReadSignalDone VC_EVENT_READ_COMPLETE,
                                ReadSignalDone VC_EVENT_READ_COMPLETE]"
proof -
  have "net_read_io e s = Some (net_read_io_handshake e (ntodo (vio (read_state s))) s)"
    using assms(1-7) by (simp add: net_read_io_def Let_def)
  moreover have "\<exists>s'. net_read_io_handshake e (ntodo (vio (read_state s))) s = Inr s'
     \<and> sslHandShakeComplete s'
     \<and> buffer (vio (read_state s')) = Some (m\<lparr>contents := contents m @ hs_bytes h\<rparr>)
     \<and> nbytes (vio (read_state s')) = nbytes (vio (read_state s1)) + int (length (hs_bytes h))
     \<and> ndone (vio (read_state s')) = ndone (vio (read_state s1)) + int (length (hs_bytes h))
     \<and> handShake s' = None
     \<and> trace s' = trace s1 @ [ReadSignalDone VC_EVENT_READ_COMPLETE,
                                ReadSignalDone VC_EVENT_READ_COMPLETE]"
    using assms(8-12)
    by (simp add: net_read_io_handshake_def write_holder_def free_handshake_buffers_def
        emit_def Let_def)
  ultimately show ?thesis by simp
qed

theorem blind_tunnel_promotion_witness:
  "\<exists>s'. net_read_io env_sni_tunnel vc_server = Some (Inr s')
     \<and> sslHandShakeComplete s'
     \<and> buffer (vio (read_state s')) = Some \<lparr>contents = ''hello'', wblocks = [10]\<rparr>
     \<and> nbytes (vio (read_state s')) = 105
     \<and> ndone (vio (read_state s')) = 5
     \<and> handShake s' = None
     \<and> trace s' = [ReadSignalDone VC_EVENT_READ_COMPLETE,
                    ReadSignalDone VC_EVENT_READ_COMPLETE]"
proof -
  let ?s1 = "vc_server\<lparr>handShake := Some \<lparr>hs_bytes = ''hello'', hs_consumed = 0\<rparr>,
               ssl := Some ((server_session env_sni_tunnel vc_server)\<lparr>rbio := MemBIO ''hello''\<rparr>),
               curHook := [], sslPreAcceptHookState := SSL_HOOKS_DONE,
               hookOpRequested := TS_SSL_HOOK_OP_TUNNEL,
               attributes := TRANSPORT_BLIND_TUNNEL, sslHandShakeComplete := False\<rparr>"
  have st: "sslStartHandShake env_sni_tunnel
           (if sslClientConnection vc_server then SSL_EVENT_CLIENT else SSL_EVENT_SERVER)
           vc_server (err_uninit env_sni_tunnel) = Inr (EVENT_CONT, 0, ?s1)"
    by (simp add: sslStartHandShake_def make_ssl_connection_def
        initialize_handshake_buffers_def sslServerHandShakeEvent_def wrap_def server_accept_def
        read_raw_data_def reader_bytes_def accept_tunnel_def env_sni_tunnel_def env0_def
        vc_server_def vc_new_def server_session_def get_socket_def Let_def)
  have "\<exists>s'. net_read_io env_sni_tunnel vc_server = Some (Inr s')
     \<and> sslHandShakeComplete s'
     \<and> buffer (vio (read_state s')) =
         Some (\<lparr>contents = [], wblocks = [10]\<rparr>
                 \<lparr>contents := contents \<lparr>contents = [], wblocks = [10]\<rparr>
                    @ hs_bytes \<lparr>hs_bytes = ''hello'', hs_consumed = 0\<rparr>\<rparr>)
     \<and> nbytes (vio (read_state s')) =
         nbytes (vio (read_state ?s1)) + int (length (hs_bytes \<lparr>hs_bytes = ''hello'', hs_consumed = 0\<rparr>))
     \<and> ndone (vio (read_state s')) =
         ndone (vio (read_state ?s1)) + int (length (hs_bytes \<lparr>hs_bytes = ''hello'', hs_consumed = 0\<rparr>))
     \<and> handShake s' = None
     \<and> trace s' = trace ?s1 @ [ReadSignalDone VC_EVENT_READ_COMPLETE,
                                ReadSignalDone VC_EVENT_READ_COMPLETE]"
  proof (rule blind_tunnel_promotion [OF _ _ _ _ _ _ _ st])
    show "attributes vc_server \<noteq> TRANSPORT_BLIND_TUNNEL"
      by (simp add: vc_server_def vc_new_def)
    show "\<not> sslClientRenegotiationAbort vc_server"
      by (simp add: vc_server_def vc_new_def)
    show "lock_is_locked env_sni_tunnel"
      by (simp add: env_sni_tunnel_def env0_def)
    show "enabled (read_state vc_server)"
      by (simp add: vc_server_def)
    show "op (vio (read_state vc_server)) = VIO_READ"
      by (simp add: vc_server_def)
    show "buffer (vio (read_state vc_server)) = Some \<lparr>contents = [], wblocks = [10]\<rparr>"
      by (simp add: vc_server_def)
    show "\<not> sslHandShakeComplete vc_server"
      by (simp add: vc_server_def vc_new_def)
    show "handShake ?s1 = Some \<lparr>hs_bytes = ''hello'', hs_consumed = 0\<rparr>" by simp
    show "attributes ?s1 = TRANSPORT_BLIND_TUNNEL" by simp
    show "\<not> sslHandShakeComplete ?s1" by simp
    show "buffer (vio (read_state ?s1)) = Some \<lparr>contents = [], wblocks = [10]\<rparr>"
      by (simp add: vc_server_def)
  qed
  then show ?thesis
    by (simp add: vc_server_def vc_new_def)
qed

text \<open>
  The promotion from the SNI callback's break-out: the accept stops with want-SNI-resolve
  after a hook asked for a tunnel, the handshake step switches the transport and leaves
  the handshake unmarked, and \<^verbatim>\<open>net_read_io\<close> replays the buffered bytes.
\<close>

lemma sni_break_out:
  assumes "sslPreAcceptHookState s = SSL_HOOKS_DONE"
    and "hookOpRequested s = TS_SSL_HOOK_OP_DEFAULT"
    and "ssl s = Some ss"
    and "(if BIO_get_mem_data (rbio ss) \<le> 0
          then map_sum id snd (read_raw_data e s) else Inr s) = Inr s1"
    and "SSLAccept e s1 = (SSL_ERROR_WANT_SNI_RESOLVE, errno, s2)"
    and "HAVE_SSL_ERROR_WANT_SNI_RESOLVE e"
    and "hookOpRequested s2 = TS_SSL_HOOK_OP_TUNNEL \<or> attributes s2 = TRANSPORT_BLIND_TUNNEL"
  shows "sslStartHandShake e SSL_EVENT_SERVER s err =
     Inr (EVENT_CONT, errno,
          s2\<lparr>attributes := TRANSPORT_BLIND_TUNNEL, sslHandShakeComplete := False\<rparr>)"
proof -
  have "sslStartHandShake e SSL_EVENT_SERVER s err = server_accept e s err"
    using assms(1,3) by (simp add: sslStartHandShake_def sslServerHandShakeEvent_def Let_def)
  also have "\<dots> = Inr (EVENT_CONT, errno,
          s2\<lparr>attributes := TRANSPORT_BLIND_TUNNEL, sslHandShakeComplete := False\<rparr>)"
    using assms(2-7) by (auto simp: server_accept_def Let_def)
  finally show ?thesis .
qed

lemma sni_tunnel_replay:
  assumes "attributes s \<noteq> TRANSPORT_BLIND_TUNNEL"
    and "\<not> sslClientRenegotiationAbort s"
    and "lock_is_locked e"
    and "enabled (read_state s)"
    and "op (vio (read_state s)) = VIO_READ"
    and "buffer (vio (read_state s)) = Some m0"
    and "\<not> sslHandShakeComplete s"
    and "\<not> sslClientConnection s"
    and "sslPreAcceptHookState s = SSL_HOOKS_DONE"
    and "hookOpRequested s = TS_SSL_HOOK_OP_DEFAULT"
    and "ssl s = Some ss"
    and "(if BIO_get_mem_data (rbio ss) \<le> 0
          then map_sum id snd (read_raw_data e s) else Inr s) = Inr s1"
    and "SSLAccept e s1 = (SSL_ERROR_WANT_SNI_RESOLVE, errno, s2)"
    and "HAVE_SSL_ERROR_WANT_SNI_RESOLVE e"
    and "hookOpRequested s2 = TS_SSL_HOOK_OP_TUNNEL \<or> attributes s2 = TRANSPORT_BLIND_TUNNEL"
    and "handShake s2 = Some h"
    and "buffer (vio (read_state s2)) = Some m"
  shows "\<exists>s'. net_read_io e s = Some (Inr s')
     \<and> sslHandShakeComplete s'
     \<and> buffer (vio (read_state s')) = Some (m\<lparr>contents := contents m @ hs_bytes h\<rparr>)
     \<and> nbytes (vio (read_state s')) = nbytes (vio (read_state s2)) + int (length (hs_bytes h))
     \<and> ndone (vio (read_state s')) = ndone (vio (read_state s2)) + int (length (hs_bytes h))
     \<and> handShake s' = None
     \<and> trace s' = trace s2 @ [ReadSignalDone VC_EVENT_READ_COMPLETE,
                                ReadSignalDone VC_EVENT_READ_COMPLETE]"
proof -
  let ?s3 = "s2\<lparr>attributes := TRANSPORT_BLIND_TUNNEL, sslHandShakeComplete := False\<rparr>"
  have st: "sslStartHandShake e
           (if sslClientConnection s then SSL_EVENT_CLIENT else SSL_EVENT_SERVER)
           s (err_uninit e) = Inr (EVENT_CONT, errno, ?s3)"
    using sni_break_out [OF assms(9-15)] assms(8) by simp
  from blind_tunnel_promotion [OF assms(1-7) st, of h m] assms(16,17)
  show ?thesis by simp
qed

text \<open>
  Claim C1. When the connection is promoted to blind tunnel after handshake bytes were
  buffered, by the tunnel verdict of an SNI hook, the handshake is marked done, every
  byte of the replay buffer is copied in order into the read VIO's buffer with \<^verbatim>\<open>nbytes\<close>
  and \<^verbatim>\<open>ndone\<close> advanced by their number, the replay buffers are released and
  read-complete is signalled twice. The code misses this when the accept does not break
  out of the SNI callback. Here the SNI hook asked for a tunnel while the accept took the
  five bytes of the client hello and returned want-read (first read event). On the next
  read event the verdict branch of \<^verbatim>\<open>sslServerHandShakeEvent\<close> switches to blind tunnel and
  marks the handshake done itself, so \<^verbatim>\<open>net_read_io\<close> signals read-complete once and
  returns: the read VIO's buffer stays empty and the replay buffers stay in place.
\<close>

theorem tunnel_verdict_without_replay:
  "net_read_io env_sni_late vc_server = Some (Inr vc_hello_buffered)
   \<and> handShake vc_hello_buffered = Some \<lparr>hs_bytes = ''hello'', hs_consumed = 5\<rparr>
   \<and> hookOpRequested vc_hello_buffered = TS_SSL_HOOK_OP_TUNNEL
   \<and> net_read_io env_sni_late vc_hello_buffered = Some (Inr vc_promoted)
   \<and> attributes vc_promoted = TRANSPORT_BLIND_TUNNEL
   \<and> sslHandShakeComplete vc_promoted
   \<and> buffer (vio (read_state vc_promoted)) = Some \<lparr>contents = [], wblocks = [10]\<rparr>
   \<and> nbytes (vio (read_state vc_promoted)) = 100
   \<and> ndone (vio (read_state vc_promoted)) = 0
   \<and> handShake vc_promoted = Some \<lparr>hs_bytes = ''hello'', hs_consumed = 5\<rparr>
   \<and> trace vc_promoted = trace vc_hello_buffered @ [ReadSignalDone VC_EVENT_READ_COMPLETE]"
proof -
  have first: "net_read_io env_sni_late vc_server = Some (Inr vc_hello_buffered)"
    by (simp add: net_read_io_def net_read_io_handshake_def sslStartHandShake_def
        make_ssl_connection_def initialize_handshake_buffers_def sslServerHandShakeEvent_def
        server_accept_def read_raw_data_def reader_bytes_def read_avail_def consume_def
        handshake_dispatch_def set_read_triggered_def accept_sets_tunnel_def
        env_sni_late_def env0_def vc_hello_buffered_def vc_server_def vc_new_def
        server_session_def get_socket_def emit_def ntodo_def Let_def)
  have second: "net_read_io env_sni_late vc_hello_buffered = Some (Inr vc_promoted)"
    by (simp add: net_read_io_def net_read_io_handshake_def sslStartHandShake_def
        sslServerHandShakeEvent_def server_accept_def vc_promoted_def
        env_sni_late_def env0_def vc_hello_buffered_def vc_server_def vc_new_def
        server_session_def get_socket_def emit_def ntodo_def Let_def)
  have rest: "handShake vc_hello_buffered = Some \<lparr>hs_bytes = ''hello'', hs_consumed = 5\<rparr>
     \<and> hookOpRequested vc_hello_buffered = TS_SSL_HOOK_OP_TUNNEL
     \<and> attributes vc_promoted = TRANSPORT_BLIND_TUNNEL
     \<and> sslHandShakeComplete vc_promoted
     \<and> buffer (vio (read_state vc_promoted)) = Some \<lparr>contents = [], wblocks = [10]\<rparr>
     \<and> nbytes (vio (read_state vc_promoted)) = 100
     \<and> ndone (vio (read_state vc_promoted)) = 0
     \<and> handShake vc_promoted = Some \<lparr>hs_bytes = ''hello'', hs_consumed = 5\<rparr>
     \<and> trace vc_promoted = trace vc_hello_buffered @ [ReadSignalDone VC_EVENT_READ_COMPLETE]"
    by (simp add: vc_promoted_def vc_hello_buffered_def vc_server_def)
  from first second rest show ?thesis by simp
qed

theorem tunnel_verdict_without_replay_witness:
  "net_read_io env_sni_late vc_hello_buffered = Some (Inr vc_promoted)
   \<and> buffer (vio (read_state vc_promoted)) = Some \<lparr>contents = [], wblocks = [10]\<rparr>
   \<and> handShake vc_promoted = Some \<lparr>hs_bytes = ''hello'', hs_consumed = 5\<rparr>
   \<and> trace vc_promoted = trace vc_hello_buffered @ [ReadSignalDone VC_EVENT_READ_COMPLETE]"
  using tunnel_verdict_without_replay by simp

end
